theory Spec2Isabelle
  imports Main "HOL-Library.Word"
begin

section \<open>The trace decoder of record\_reader.cpp\<close>

text \<open>
  A shallow embedding of \<^verbatim>\<open>RecordReader\<close> (record\_reader.cpp). Every member function of
  the class becomes a function from the reader's state to an outcome and the new state.
  A C++ exception, a failed \<^verbatim>\<open>assert\<close> and a null result are values of \<open>error\<close>; the state
  comes back on every path, so what a failing call has already changed stays visible.
\<close>

subsection \<open>Errors\<close>

text \<open>
  \<open>IoError\<close> is the exception of the byte source (the only one \<^verbatim>\<open>nextAllocationRecord\<close>
  catches); \<open>ios_base_failure\<close> is \<^verbatim>\<open>std::ios_base::failure\<close> (the spec's FormatError);
  \<open>runtime_error\<close> is \<^verbatim>\<open>std::runtime_error\<close> (the spec's ProtocolError); \<open>out_of_range\<close> is
  what \<^verbatim>\<open>unordered_map::at\<close> throws. \<open>AssertionFailure\<close> is a failed \<^verbatim>\<open>assert\<close>, which aborts
  the process; \<open>UndefinedBehaviour\<close> marks an operation the language leaves undefined
  (\<^verbatim>\<open>pop_back\<close> on an empty vector, \<^verbatim>\<open>operator[]\<close> past the end); \<open>NullResult\<close> is a
  \<^verbatim>\<open>nullptr\<close> returned to Python.
\<close>

datatype error =
    IoError
  | ios_base_failure string
  | runtime_error string
  | out_of_range
  | AssertionFailure
  | UndefinedBehaviour
  | NullResult

subsection \<open>Records of the trace format\<close>

text \<open>
  Modelled from the spec: records.h, which declares these types, is not part of the file.
  The fields are the ones record\_reader.cpp names (\<^verbatim>\<open>frame_seq_entry.tid\<close>,
  \<^verbatim>\<open>partial_frame.parent_lineno\<close>, \<^verbatim>\<open>record.py_lineno\<close>, \<^verbatim>\<open>frame.ip\<close>, ...) and, for the
  payload of an allocation and for a segment, the ones section 3 of the spec lists.
  Identifiers, addresses and sizes are natural numbers, line numbers are integers, a
  \<^verbatim>\<open>std::string\<close> is a list of bytes. The header keeps the flag for native traces and the
  statistics as the bytes read: the reader never looks into them.
\<close>

type_synonym byte = "8 word"
type_synonym thread_id_t = nat
type_synonym frame_id_t = nat

datatype RecordType =
    ALLOCATION
  | FRAME
  | FRAME_INDEX
  | NATIVE_TRACE_INDEX
  | MEMORY_MAP_START
  | SEGMENT_HEADER
  | SEGMENT
  | OTHER_RECORD_TYPE

text \<open>
  \<open>OTHER_ACTION\<close> stands for any stored value that is neither \<^verbatim>\<open>PUSH\<close> nor \<^verbatim>\<open>POP\<close>: the
  \<^verbatim>\<open>switch\<close> of \<^verbatim>\<open>parseFrame\<close> has no default case.
\<close>

datatype FrameAction = PUSH | POP | OTHER_ACTION

record FrameSeqEntry =
  frame_id :: frame_id_t
  tid :: thread_id_t
  action :: FrameAction

record Frame =
  function_name :: "byte list"
  filename :: "byte list"
  parent_lineno :: int
  lineno :: int

record UnresolvedNativeFrame =
  ip :: nat
  index :: nat

record AllocationRecord =
  tid :: thread_id_t
  address :: nat
  size :: nat
  allocator :: nat
  py_lineno :: int
  native_frame_id :: nat

record Segment =
  vaddr :: nat
  memsz :: nat

record HeaderRecord =
  magic :: "byte list"
  version :: int
  native_traces :: "byte list"
  stats :: "byte list"
  command_line :: "byte list"

record Allocation =
  alloc_record :: AllocationRecord
  frame_index :: nat
  native_segment_generation :: nat

subsection \<open>What the source takes from other files\<close>

text \<open>
  records.h, exceptions.h and the build flags are not part of the file. Everything
  \<^verbatim>\<open>RecordReader\<close> takes from them is a field of \<open>platform\<close>: the constants \<^verbatim>\<open>MAGIC\<close>
  and \<^verbatim>\<open>CURRENT_HEADER_VERSION\<close>, \<^verbatim>\<open>sizeof\<close> of every type that is read from the stream,
  how the bytes of such an object are read back as its value, the \<^verbatim>\<open>lineno\<close> of a
  value-initialised \<^verbatim>\<open>Frame\<close>, whether \<^verbatim>\<open>NDEBUG\<close> removes the assertions, and the
  identifier the frame collection gives to its \<open>n\<close>-th new frame.
  In C++ \<^verbatim>\<open>sizeof\<close> is never 0; \<open>RecordType_more_bytes\<close> is \<^verbatim>\<open>sizeof(RecordType) - 1\<close>.
\<close>

record platform =
  ndebug :: bool
  MAGIC :: "byte list"
  CURRENT_HEADER_VERSION :: int
  sizeof_version :: nat
  decode_version :: "byte list \<Rightarrow> int"
  sizeof_native_traces :: nat
  sizeof_stats :: nat
  RecordType_more_bytes :: nat
  decode_RecordType :: "byte list \<Rightarrow> RecordType"
  sizeof_FrameSeqEntry :: nat
  decode_FrameSeqEntry :: "byte list \<Rightarrow> FrameSeqEntry"
  sizeof_frame_id_t :: nat
  decode_frame_id_t :: "byte list \<Rightarrow> frame_id_t"
  sizeof_int :: nat
  decode_int :: "byte list \<Rightarrow> int"
  sizeof_UnresolvedNativeFrame :: nat
  decode_UnresolvedNativeFrame :: "byte list \<Rightarrow> UnresolvedNativeFrame"
  sizeof_AllocationRecord :: nat
  decode_AllocationRecord :: "byte list \<Rightarrow> AllocationRecord"
  sizeof_size_t :: nat
  decode_size_t :: "byte list \<Rightarrow> nat"
  sizeof_uintptr_t :: nat
  decode_uintptr_t :: "byte list \<Rightarrow> nat"
  sizeof_Segment :: nat
  decode_Segment :: "byte list \<Rightarrow> Segment"
  default_lineno :: int
  new_frame_id :: "nat \<Rightarrow> frame_id_t"

definition sizeof_RecordType :: "platform \<Rightarrow> nat" where
  "sizeof_RecordType P = Suc (RecordType_more_bytes P)"

definition sizeof_MAGIC :: "platform \<Rightarrow> nat" where
  "sizeof_MAGIC P = length (MAGIC P)"

subsection \<open>The byte source\<close>

text \<open>
  Modelled from the spec: the class \<^verbatim>\<open>Source\<close> (source.h) is not part of the file. The
  spec describes it as a sequential binary reader with fixed-size reads, reads of
  null-terminated strings and an end-of-stream error. A source is the list of the bytes
  not yet read. A read that finds too few bytes, or a string read that finds no
  terminator, raises \<open>IoError\<close> and leaves the source exhausted.
\<close>

type_synonym Source = "byte list"

definition Source_read :: "nat \<Rightarrow> Source \<Rightarrow> (error + byte list) \<times> Source" where
  "Source_read n src =
     (if n \<le> length src then (Inr (take n src), drop n src) else (Inl IoError, []))"

definition Source_getline :: "byte \<Rightarrow> Source \<Rightarrow> (error + byte list) \<times> Source" where
  "Source_getline delimiter src =
     (if delimiter \<in> set src
      then (Inr (takeWhile (\<lambda>b. b \<noteq> delimiter) src),
            tl (dropWhile (\<lambda>b. b \<noteq> delimiter) src))
      else (Inl IoError, []))"

subsection \<open>The stack tree, the frame collection and the symbol resolver\<close>

text \<open>
  Modelled from the spec: \<^verbatim>\<open>FrameTree\<close> (the member \<^verbatim>\<open>d_tree\<close>) is not part of the file.
  Section 4.4 of the spec: a flat array of (frame id, parent index) nodes, index 0
  reserved for the empty stack; \<^verbatim>\<open>getTraceIndex\<close> walks a stack from the bottom, following
  or creating child links; \<^verbatim>\<open>nextNode\<close> looks one node up. An index that was never
  issued has no node.
\<close>

record Node =
  node_frame_id :: frame_id_t
  parent_index :: nat

type_synonym FrameTree = "Node list"

definition FrameTree_init :: FrameTree where
  "FrameTree_init = [\<lparr>node_frame_id = 0, parent_index = 0\<rparr>]"

definition getTraceIndex_child :: "nat \<Rightarrow> frame_id_t \<Rightarrow> FrameTree \<Rightarrow> nat \<times> FrameTree" where
  "getTraceIndex_child parent f tree =
     (case filter (\<lambda>i. tree ! i = \<lparr>node_frame_id = f, parent_index = parent\<rparr>) [1 ..< length tree] of
        [] \<Rightarrow> (length tree, tree @ [\<lparr>node_frame_id = f, parent_index = parent\<rparr>])
      | i # _ \<Rightarrow> (i, tree))"

fun getTraceIndex_from :: "nat \<Rightarrow> frame_id_t list \<Rightarrow> FrameTree \<Rightarrow> nat \<times> FrameTree" where
  "getTraceIndex_from i [] tree = (i, tree)"
| "getTraceIndex_from i (f # fs) tree =
     (case getTraceIndex_child i f tree of (j, tree') \<Rightarrow> getTraceIndex_from j fs tree')"

definition getTraceIndex :: "frame_id_t list \<Rightarrow> FrameTree \<Rightarrow> nat \<times> FrameTree" where
  "getTraceIndex stack_trace tree = getTraceIndex_from 0 stack_trace tree"

definition nextNode :: "FrameTree \<Rightarrow> nat \<Rightarrow> Node option" where
  "nextNode tree i = (if 1 \<le> i \<and> i < length tree then Some (tree ! i) else None)"

text \<open>
  Modelled from the spec: the frame collection (the member \<^verbatim>\<open>d_allocation_frames\<close>) is not
  part of the file. Section 4.3 of the spec: a content-keyed table of precise frames;
  \<^verbatim>\<open>getIndex\<close> reuses the identifier of a frame it holds or mints a new one, and says
  which. The \<open>n\<close>-th minted identifier is \<open>new_frame_id P n\<close>.
\<close>

record FrameCollection =
  known_frames :: "Frame \<rightharpoonup> frame_id_t"
  minted :: nat

definition FrameCollection_init :: FrameCollection where
  "FrameCollection_init = \<lparr>known_frames = Map.empty, minted = 0\<rparr>"

definition getIndex :: "platform \<Rightarrow> Frame \<Rightarrow> FrameCollection \<Rightarrow> (frame_id_t \<times> bool) \<times> FrameCollection" where
  "getIndex P f c =
     (case known_frames c f of
        Some i \<Rightarrow> ((i, False), c)
      | None \<Rightarrow> ((new_frame_id P (minted c), True),
                 c\<lparr>known_frames := (known_frames c)(f \<mapsto> new_frame_id P (minted c)),
                   minted := Suc (minted c)\<rparr>))"

text \<open>
  Modelled from the spec: \<^verbatim>\<open>SymbolResolver\<close> (the member \<^verbatim>\<open>d_symbol_resolver\<close>) is not part
  of the file. Section 4.5 of the spec: \<^verbatim>\<open>clearSegments\<close> increments the generation and
  starts an empty segment set, \<^verbatim>\<open>addSegments\<close> registers one module's segments under the
  current generation, \<^verbatim>\<open>currentSegmentGeneration\<close> reads the generation. How an
  instruction pointer is resolved against the modules of a generation is opaque: it is
  the parameter \<open>lookup\<close> of \<open>resolve\<close>.
\<close>

record Module =
  module_filename :: "byte list"
  module_addr :: nat
  module_segments :: "Segment list"

record SymbolResolver =
  segments_of :: "nat \<Rightarrow> Module list"
  generation :: nat

definition SymbolResolver_init :: SymbolResolver where
  "SymbolResolver_init = \<lparr>segments_of = (\<lambda>_. []), generation = 0\<rparr>"

definition clearSegments :: "SymbolResolver \<Rightarrow> SymbolResolver" where
  "clearSegments r = r\<lparr>generation := Suc (generation r)\<rparr>"

definition addSegments :: "byte list \<Rightarrow> nat \<Rightarrow> Segment list \<Rightarrow> SymbolResolver \<Rightarrow> SymbolResolver" where
  "addSegments file addr segments r =
     r\<lparr>segments_of := (segments_of r)
         (generation r := segments_of r (generation r) @
            [\<lparr>module_filename = file, module_addr = addr, module_segments = segments\<rparr>])\<rparr>"

definition currentSegmentGeneration :: "SymbolResolver \<Rightarrow> nat" where
  "currentSegmentGeneration r = generation r"

definition resolve :: "(Module list \<Rightarrow> nat \<Rightarrow> 'n list option) \<Rightarrow> SymbolResolver \<Rightarrow> nat \<Rightarrow> nat \<Rightarrow> 'n list option" where
  "resolve lookup r pc gen = lookup (segments_of r gen) pc"

subsection \<open>The reader's state\<close>

record RecordReader =
  d_input :: Source
  d_header :: HeaderRecord
  d_stack_traces :: "thread_id_t \<rightharpoonup> frame_id_t list"
  d_frame_map :: "frame_id_t \<rightharpoonup> Frame"
  d_allocation_frames :: FrameCollection
  d_tree :: FrameTree
  d_native_frames :: "UnresolvedNativeFrame list"
  d_symbol_resolver :: SymbolResolver

text \<open>\<^verbatim>\<open>d_input->read\<close> and \<^verbatim>\<open>d_input->getline\<close>: the source is a member of the reader.\<close>

definition input_read :: "nat \<Rightarrow> RecordReader \<Rightarrow> (error + byte list) \<times> RecordReader" where
  "input_read n st = (case Source_read n (d_input st) of (r, src) \<Rightarrow> (r, st\<lparr>d_input := src\<rparr>))"

definition input_getline :: "RecordReader \<Rightarrow> (error + byte list) \<times> RecordReader" where
  "input_getline st = (case Source_getline 0 (d_input st) of (r, src) \<Rightarrow> (r, st\<lparr>d_input := src\<rparr>))"

text \<open>Sequencing: an exception of the first step skips the rest.\<close>

definition and_then ::
  "('s \<Rightarrow> (error + 'a) \<times> 's) \<Rightarrow> ('a \<Rightarrow> 's \<Rightarrow> (error + 'b) \<times> 's) \<Rightarrow> 's \<Rightarrow> (error + 'b) \<times> 's" where
  "and_then m f st = (case m st of (Inl e, st') \<Rightarrow> (Inl e, st') | (Inr a, st') \<Rightarrow> f a st')"

definition raise :: "error \<Rightarrow> 's \<Rightarrow> (error + 'a) \<times> 's" where
  "raise e st = (Inl e, st)"

definition return_value :: "'a \<Rightarrow> 's \<Rightarrow> (error + 'a) \<times> 's" where
  "return_value a st = (Inr a, st)"

subsection \<open>The header\<close>

text \<open>
  \<^verbatim>\<open>readHeader\<close>, lines 22-39. The header under construction is returned when every read
  has succeeded; an exception leaves the constructor without an object.
\<close>

definition readHeader :: "platform \<Rightarrow> Source \<Rightarrow> (error + HeaderRecord) \<times> Source" where
  "readHeader P =
     and_then (Source_read (sizeof_MAGIC P)) (\<lambda>m.
       if m \<noteq> MAGIC P
       then raise (ios_base_failure
              ''The provided input file does not look like a binary generated by pensieve.'')
       else and_then (Source_read (sizeof_version P)) (\<lambda>v.
         if decode_version P v \<noteq> CURRENT_HEADER_VERSION P
         then raise (ios_base_failure
                ''The provided input file is incompatible with this version of pensieve.'')
         else and_then (Source_read (sizeof_native_traces P)) (\<lambda>n.
              and_then (Source_read (sizeof_stats P)) (\<lambda>s.
              and_then (Source_getline 0) (\<lambda>c.
                return_value \<lparr>magic = m, version = decode_version P v, native_traces = n,
                              stats = s, command_line = c\<rparr>)))))"

text \<open>The reader as the constructor leaves it, on a given source and header.\<close>

definition fresh_reader :: "HeaderRecord \<Rightarrow> Source \<Rightarrow> RecordReader" where
  "fresh_reader h src =
     \<lparr>d_input = src, d_header = h, d_stack_traces = Map.empty, d_frame_map = Map.empty,
      d_allocation_frames = FrameCollection_init, d_tree = FrameTree_init,
      d_native_frames = [], d_symbol_resolver = SymbolResolver_init\<rparr>"

text \<open>
  The constructor, lines 41-45. The members other than the source and the header start
  empty. A failure carries the source as the failing read left it.
\<close>

definition RecordReader_new :: "platform \<Rightarrow> Source \<Rightarrow> (error \<times> Source) + RecordReader" where
  "RecordReader_new P source =
     (case readHeader P source of
        (Inl e, src) \<Rightarrow> Inl (e, src)
      | (Inr h, src) \<Rightarrow> Inr (fresh_reader h src))"

definition getHeader :: "RecordReader \<Rightarrow> HeaderRecord" where
  "getHeader st = d_header st"

subsection \<open>Parsing one record\<close>

text \<open>
  \<^verbatim>\<open>parseFrame\<close>, lines 59-75. \<^verbatim>\<open>d_stack_traces[tid]\<close> creates an empty stack for a thread
  that has none. With the assertions compiled in, a \<^verbatim>\<open>POP\<close> on an empty stack aborts;
  under \<^verbatim>\<open>NDEBUG\<close> it reaches \<^verbatim>\<open>pop_back\<close> on an empty vector.
\<close>

definition stack_of :: "RecordReader \<Rightarrow> thread_id_t \<Rightarrow> frame_id_t list" where
  "stack_of st t = (case d_stack_traces st t of None \<Rightarrow> [] | Some stack \<Rightarrow> stack)"

definition parseFrame :: "platform \<Rightarrow> RecordReader \<Rightarrow> (error + unit) \<times> RecordReader" where
  "parseFrame P =
     and_then (input_read (sizeof_FrameSeqEntry P)) (\<lambda>bytes st.
       let frame_seq_entry = decode_FrameSeqEntry P bytes;
           t = FrameSeqEntry.tid frame_seq_entry
       in case action frame_seq_entry of
            PUSH \<Rightarrow>
              (Inr (), st\<lparr>d_stack_traces :=
                 (d_stack_traces st)(t \<mapsto> stack_of st t @ [frame_id frame_seq_entry])\<rparr>)
          | POP \<Rightarrow>
              if stack_of st t = []
              then (Inl (if ndebug P then UndefinedBehaviour else AssertionFailure),
                    st\<lparr>d_stack_traces := (d_stack_traces st)(t \<mapsto> [])\<rparr>)
              else (Inr (), st\<lparr>d_stack_traces :=
                      (d_stack_traces st)(t \<mapsto> butlast (stack_of st t))\<rparr>)
          | OTHER_ACTION \<Rightarrow> (Inr (), st))"

text \<open>
  \<^verbatim>\<open>parseFrameIndex\<close>, lines 77-91. \<^verbatim>\<open>insert\<close> leaves the map as it is when the key is
  there already.
\<close>

definition parseFrameIndex :: "platform \<Rightarrow> RecordReader \<Rightarrow> (error + unit) \<times> RecordReader" where
  "parseFrameIndex P =
     and_then (input_read (sizeof_frame_id_t P)) (\<lambda>first.
     and_then input_getline (\<lambda>fn.
     and_then input_getline (\<lambda>file.
     and_then (input_read (sizeof_int P)) (\<lambda>line st.
       let k = decode_frame_id_t P first;
           f = \<lparr>function_name = fn, filename = file, parent_lineno = decode_int P line,
                lineno = default_lineno P\<rparr>
       in case d_frame_map st k of
            Some _ \<Rightarrow> (Inl (runtime_error ''Two entries with the same ID found!''), st)
          | None \<Rightarrow> (Inr (), st\<lparr>d_frame_map := (d_frame_map st)(k \<mapsto> f)\<rparr>)))))"

text \<open>\<^verbatim>\<open>parseNativeFrameIndex\<close>, lines 93-99.\<close>

definition parseNativeFrameIndex :: "platform \<Rightarrow> RecordReader \<Rightarrow> (error + unit) \<times> RecordReader" where
  "parseNativeFrameIndex P =
     and_then (input_read (sizeof_UnresolvedNativeFrame P)) (\<lambda>bytes st.
       (Inr (), st\<lparr>d_native_frames :=
          d_native_frames st @ [decode_UnresolvedNativeFrame P bytes]\<rparr>))"

text \<open>\<^verbatim>\<open>parseAllocationRecord\<close>, lines 101-107.\<close>

definition parseAllocationRecord ::
  "platform \<Rightarrow> RecordReader \<Rightarrow> (error + AllocationRecord) \<times> RecordReader" where
  "parseAllocationRecord P =
     and_then (input_read (sizeof_AllocationRecord P)) (\<lambda>bytes.
       return_value (decode_AllocationRecord P bytes))"

text \<open>
  \<^verbatim>\<open>parseSegment\<close>, lines 126-135. Under \<^verbatim>\<open>NDEBUG\<close> the tag is read and not looked at.
\<close>

definition parseSegment :: "platform \<Rightarrow> RecordReader \<Rightarrow> (error + Segment) \<times> RecordReader" where
  "parseSegment P =
     and_then (input_read (sizeof_RecordType P)) (\<lambda>record_type.
       if \<not> ndebug P \<and> decode_RecordType P record_type \<noteq> SEGMENT
       then raise AssertionFailure
       else and_then (input_read (sizeof_Segment P)) (\<lambda>bytes.
              return_value (decode_Segment P bytes)))"

text \<open>
  \<^verbatim>\<open>parseSegmentHeader\<close>, lines 109-124. \<^verbatim>\<open>std::vector<Segment> segments(num_segments)\<close>
  is a vector of \<^verbatim>\<open>num_segments\<close> value-initialised segments; the loop appends to it.
  The first argument of the loop function is the number of iterations left,
  \<^verbatim>\<open>num_segments - i\<close>. A vector too large for the memory of the host is outside the model.
\<close>

definition Segment_default :: Segment where
  "Segment_default = \<lparr>vaddr = 0, memsz = 0\<rparr>"

fun parseSegmentHeader_loop ::
  "platform \<Rightarrow> nat \<Rightarrow> Segment list \<Rightarrow> RecordReader \<Rightarrow> (error + Segment list) \<times> RecordReader" where
  "parseSegmentHeader_loop P 0 segments st = (Inr segments, st)"
| "parseSegmentHeader_loop P (Suc n) segments st =
     (case parseSegment P st of
        (Inl e, st') \<Rightarrow> (Inl e, st')
      | (Inr s, st') \<Rightarrow> parseSegmentHeader_loop P n (segments @ [s]) st')"

definition parseSegmentHeader :: "platform \<Rightarrow> RecordReader \<Rightarrow> (error + unit) \<times> RecordReader" where
  "parseSegmentHeader P =
     and_then input_getline (\<lambda>file.
     and_then (input_read (sizeof_size_t P)) (\<lambda>n.
     and_then (input_read (sizeof_uintptr_t P)) (\<lambda>a.
       let num_segments = decode_size_t P n; addr = decode_uintptr_t P a
       in and_then (parseSegmentHeader_loop P num_segments (replicate num_segments Segment_default))
            (\<lambda>segments st.
               (Inr (), st\<lparr>d_symbol_resolver :=
                  addSegments file addr segments (d_symbol_resolver st)\<rparr>)))))"

subsection \<open>The frame of an allocation\<close>

text \<open>
  \<^verbatim>\<open>correctAllocationFrame\<close>, lines 148-165. The parameter \<^verbatim>\<open>stack\<close> is a reference: the
  function takes the stack it refers to and returns it as the call leaves it, and the
  caller stores it where the reference points. \<^verbatim>\<open>emplace\<close> leaves the map as it is when
  the key is there already.
\<close>

definition correctAllocationFrame ::
  "platform \<Rightarrow> frame_id_t list \<Rightarrow> int \<Rightarrow> RecordReader \<Rightarrow> (error + frame_id_t list) \<times> RecordReader" where
  "correctAllocationFrame P stack line st =
     (if stack = [] then (Inr stack, st)
      else case d_frame_map st (last stack) of
             None \<Rightarrow> (Inl out_of_range, st)
           | Some partial_frame \<Rightarrow>
               let allocation_frame =
                     \<lparr>function_name = function_name partial_frame,
                      filename = filename partial_frame,
                      parent_lineno = parent_lineno partial_frame,
                      lineno = line\<rparr>
               in case getIndex P allocation_frame (d_allocation_frames st) of
                    ((allocation_index, is_new_frame), frames) \<Rightarrow>
                      (Inr (butlast stack @ [allocation_index]),
                       st\<lparr>d_allocation_frames := frames,
                          d_frame_map :=
                            (if is_new_frame \<and> d_frame_map st allocation_index = None
                             then (d_frame_map st)(allocation_index \<mapsto> allocation_frame)
                             else d_frame_map st)\<rparr>))"

text \<open>
  \<^verbatim>\<open>getAllocationFrameIndex\<close>, lines 137-146. \<^verbatim>\<open>stack->second\<close> is the stack stored for the
  thread, so what \<^verbatim>\<open>correctAllocationFrame\<close> wrote to it is stored there.
\<close>

definition getAllocationFrameIndex ::
  "platform \<Rightarrow> AllocationRecord \<Rightarrow> RecordReader \<Rightarrow> (error + nat) \<times> RecordReader" where
  "getAllocationFrameIndex P record st =
     (case d_stack_traces st (AllocationRecord.tid record) of
        None \<Rightarrow> (Inr 0, st)
      | Some stack \<Rightarrow>
          (case correctAllocationFrame P stack (py_lineno record) st of
             (Inl e, st') \<Rightarrow> (Inl e, st')
           | (Inr stack', st') \<Rightarrow>
               (case getTraceIndex stack' (d_tree st') of
                  (i, tree) \<Rightarrow>
                    (Inr i, st'\<lparr>d_stack_traces :=
                                  (d_stack_traces st')(AllocationRecord.tid record \<mapsto> stack'),
                                d_tree := tree\<rparr>))))"

subsection \<open>The loop over the records\<close>

text \<open>No step hands bytes back to the source; a read of a record type takes at least one.\<close>

lemma Source_read_length:
  "Source_read n src = (Inr bs, src') \<Longrightarrow> length src' + n = length src \<and> length bs = n"
  by (auto simp: Source_read_def split: if_splits)

lemma Source_read_le: "length (snd (Source_read n src)) \<le> length src"
  by (simp add: Source_read_def)

lemma Source_getline_le: "length (snd (Source_getline d src)) \<le> length src"
  by (simp add: Source_getline_def) (metis diff_le_self length_drop length_dropWhile_le le_trans drop_Suc tl_drop length_tl)

lemma input_read_le: "length (d_input (snd (input_read n st))) \<le> length (d_input st)"
  using Source_read_le [of n "d_input st"] by (cases "Source_read n (d_input st)") (simp add: input_read_def)

lemma input_getline_le: "length (d_input (snd (input_getline st))) \<le> length (d_input st)"
  using Source_getline_le [of 0 "d_input st"] by (cases "Source_getline 0 (d_input st)") (simp add: input_getline_def)

lemma and_then_le:
  assumes "\<And>s. length (d_input (snd (m s))) \<le> length (d_input s)"
    and "\<And>a s. length (d_input (snd (f a s))) \<le> length (d_input s)"
  shows "length (d_input (snd (and_then m f st))) \<le> length (d_input st)"
proof (cases "m st")
  case (Pair r st')
  have le: "length (d_input st') \<le> length (d_input st)" using assms(1) [of st] Pair by simp
  show ?thesis
  proof (cases r)
    case (Inl e) with Pair le show ?thesis by (simp add: and_then_def)
  next
    case (Inr a)
    with Pair have "and_then m f st = f a st'" by (simp add: and_then_def)
    with assms(2) [of a st'] le show ?thesis by simp
  qed
qed

lemma parseFrame_le: "length (d_input (snd (parseFrame P st))) \<le> length (d_input st)"
  unfolding parseFrame_def
  by (rule and_then_le) (auto simp: input_read_le Let_def split: FrameAction.splits)

lemma parseFrameIndex_le: "length (d_input (snd (parseFrameIndex P st))) \<le> length (d_input st)"
  unfolding parseFrameIndex_def
  by (intro and_then_le input_read_le input_getline_le) (auto simp: Let_def split: option.splits)

lemma parseNativeFrameIndex_le:
  "length (d_input (snd (parseNativeFrameIndex P st))) \<le> length (d_input st)"
  unfolding parseNativeFrameIndex_def
  by (intro and_then_le input_read_le) auto

lemma parseAllocationRecord_le:
  "length (d_input (snd (parseAllocationRecord P st))) \<le> length (d_input st)"
  unfolding parseAllocationRecord_def
  by (intro and_then_le input_read_le) (auto simp: return_value_def)

lemma parseSegment_le: "length (d_input (snd (parseSegment P st))) \<le> length (d_input st)"
  unfolding parseSegment_def
  by (intro and_then_le input_read_le) (auto simp: return_value_def raise_def intro!: and_then_le input_read_le)

lemma parseSegmentHeader_loop_le:
  "length (d_input (snd (parseSegmentHeader_loop P n segs st))) \<le> length (d_input st)"
proof (induction n arbitrary: segs st)
  case 0 show ?case by simp
next
  case (Suc n)
  show ?case
  proof (cases "parseSegment P st")
    case (Pair r st')
    with parseSegment_le [of P st] have le: "length (d_input st') \<le> length (d_input st)" by simp
    show ?thesis
    proof (cases r)
      case (Inl e) with Pair le show ?thesis by simp
    next
      case (Inr s)
      with Pair le Suc.IH [of "segs @ [s]" st'] show ?thesis by simp
    qed
  qed
qed

lemma parseSegmentHeader_le:
  "length (d_input (snd (parseSegmentHeader P st))) \<le> length (d_input st)"
  unfolding parseSegmentHeader_def Let_def
  by (intro and_then_le input_read_le input_getline_le parseSegmentHeader_loop_le) auto

lemma input_read_lt:
  "input_read (Suc n) st = (Inr bs, st') \<Longrightarrow> length (d_input st') < length (d_input st)"
  by (auto simp: input_read_def Source_read_def split: if_splits)

text \<open>
  The body of the \<^verbatim>\<open>try\<close> block of \<^verbatim>\<open>nextAllocationRecord\<close>, lines 173-205: the loop
  leaves with the allocation it decoded or with the exception that ended it.
\<close>

function nextAllocationRecord_loop ::
  "platform \<Rightarrow> RecordReader \<Rightarrow> (error + Allocation) \<times> RecordReader" where
  "nextAllocationRecord_loop P st =
     (case input_read (sizeof_RecordType P) st of
        (Inl e, st1) \<Rightarrow> (Inl e, st1)
      | (Inr record_type, st1) \<Rightarrow>
          (case decode_RecordType P record_type of
             ALLOCATION \<Rightarrow>
               (case parseAllocationRecord P st1 of
                  (Inl e, st2) \<Rightarrow> (Inl e, st2)
                | (Inr record, st2) \<Rightarrow>
                    (case getAllocationFrameIndex P record st2 of
                       (Inl e, st3) \<Rightarrow> (Inl e, st3)
                     | (Inr f_index, st3) \<Rightarrow>
                         (Inr \<lparr>alloc_record = record, frame_index = f_index,
                               native_segment_generation =
                                 currentSegmentGeneration (d_symbol_resolver st3)\<rparr>, st3)))
           | FRAME \<Rightarrow>
               (case parseFrame P st1 of
                  (Inl e, st2) \<Rightarrow> (Inl e, st2)
                | (Inr _, st2) \<Rightarrow> nextAllocationRecord_loop P st2)
           | FRAME_INDEX \<Rightarrow>
               (case parseFrameIndex P st1 of
                  (Inl e, st2) \<Rightarrow> (Inl e, st2)
                | (Inr _, st2) \<Rightarrow> nextAllocationRecord_loop P st2)
           | NATIVE_TRACE_INDEX \<Rightarrow>
               (case parseNativeFrameIndex P st1 of
                  (Inl e, st2) \<Rightarrow> (Inl e, st2)
                | (Inr _, st2) \<Rightarrow> nextAllocationRecord_loop P st2)
           | MEMORY_MAP_START \<Rightarrow>
               nextAllocationRecord_loop P
                 (st1\<lparr>d_symbol_resolver := clearSegments (d_symbol_resolver st1)\<rparr>)
           | SEGMENT_HEADER \<Rightarrow>
               (case parseSegmentHeader P st1 of
                  (Inl e, st2) \<Rightarrow> (Inl e, st2)
                | (Inr _, st2) \<Rightarrow> nextAllocationRecord_loop P st2)
           | _ \<Rightarrow> (Inl (runtime_error ''Invalid record type''), st1)))"
  by pat_completeness auto
termination
proof (relation "measure (\<lambda>(P, st). length (d_input st))", goal_cases)
  case 1 show ?case by simp
next
  case (2 P st x st1 record_type x2 r st2)
  then show ?case
    using parseFrame_le [of P st1] input_read_lt [of "RecordType_more_bytes P" st record_type st1]
    by (simp add: sizeof_RecordType_def) (metis snd_conv le_less_trans)
next
  case (3 P st x st1 record_type x2 r st2)
  then show ?case
    using parseFrameIndex_le [of P st1] input_read_lt [of "RecordType_more_bytes P" st record_type st1]
    by (simp add: sizeof_RecordType_def) (metis snd_conv le_less_trans)
next
  case (4 P st x st1 record_type x2 r st2)
  then show ?case
    using parseNativeFrameIndex_le [of P st1] input_read_lt [of "RecordType_more_bytes P" st record_type st1]
    by (simp add: sizeof_RecordType_def) (metis snd_conv le_less_trans)
next
  case (5 P st x st1 record_type)
  then show ?case
    using input_read_lt [of "RecordType_more_bytes P" st record_type st1]
    by (simp add: sizeof_RecordType_def)
next
  case (6 P st x st1 record_type x2 r st2)
  then show ?case
    using parseSegmentHeader_le [of P st1] input_read_lt [of "RecordType_more_bytes P" st record_type st1]
    by (simp add: sizeof_RecordType_def) (metis snd_conv le_less_trans)
qed

declare nextAllocationRecord_loop.simps [simp del]

text \<open>
  \<^verbatim>\<open>nextAllocationRecord\<close>, lines 169-209. \<open>Inr (Some a)\<close> is \<^verbatim>\<open>true\<close> with \<open>a\<close> stored in
  \<^verbatim>\<open>*allocation\<close>, \<open>Inr None\<close> is \<^verbatim>\<open>false\<close>. The handler catches \<^verbatim>\<open>IoError\<close> and nothing else.
\<close>

definition nextAllocationRecord ::
  "platform \<Rightarrow> RecordReader \<Rightarrow> (error + Allocation option) \<times> RecordReader" where
  "nextAllocationRecord P st =
     (case nextAllocationRecord_loop P st of
        (Inr a, st') \<Rightarrow> (Inr (Some a), st')
      | (Inl IoError, st') \<Rightarrow> (Inr None, st')
      | (Inl e, st') \<Rightarrow> (Inl e, st'))"

subsection \<open>Walking a stack\<close>

text \<open>
  \<^verbatim>\<open>Py_GetStackFrame\<close>, lines 211-241, and \<^verbatim>\<open>Py_GetNativeStackFrame\<close>, lines 243-276.
  \<^verbatim>\<open>toPythonObject\<close> belongs to files that are not here: it is a parameter, \<open>None\<close> when it
  returns \<^verbatim>\<open>nullptr\<close>. The Python list is a list; \<^verbatim>\<open>PyList_New\<close> and \<^verbatim>\<open>PyList_Append\<close> fail
  only when the host has no memory left, which is outside the model. A tree index
  without a node ends \<^verbatim>\<open>Py_GetStackFrame\<close> like a frame identifier without a frame, with
  \<open>out_of_range\<close>; \<^verbatim>\<open>d_native_frames[current_index - 1]\<close> past the end of the vector is
  \<open>UndefinedBehaviour\<close>. \<^verbatim>\<open>size_t\<close> is a word
  of any width: \<^verbatim>\<open>stacks_obtained++ != max_stacks\<close> compares and then adds one, wrapping.
  The sum type says how a walk ends: \<open>Inr\<close> the list, \<open>Inl\<close> an exception, undefined
  behaviour or a null result.
\<close>

lemma size_t_countdown:
  fixes stacks_obtained max_stacks :: "'w::len word"
  assumes "stacks_obtained \<noteq> max_stacks"
  shows "unat (max_stacks - (stacks_obtained + 1)) < unat (max_stacks - stacks_obtained)"
proof -
  define d where "d = max_stacks - stacks_obtained"
  from assms have nz: "d \<noteq> 0" by (auto simp: d_def)
  have eq: "max_stacks - (stacks_obtained + 1) = d - 1" by (simp add: d_def)
  from nz have "unat (d - 1) < unat d"
    by (simp add: unat_minus_one unat_gt_0)
  then show ?thesis unfolding eq d_def .
qed

function Py_GetStackFrame_loop ::
  "(Frame \<Rightarrow> int \<Rightarrow> 'o option) \<Rightarrow> RecordReader \<Rightarrow> 'w::len word \<Rightarrow>
   nat \<Rightarrow> 'w word \<Rightarrow> int \<Rightarrow> 'o list \<Rightarrow> error + 'o list" where
  "Py_GetStackFrame_loop toPythonObject st max_stacks current_index stacks_obtained
       current_lineno list =
     (if current_index \<noteq> 0 \<and> stacks_obtained \<noteq> max_stacks
      then (case nextNode (d_tree st) current_index of
              None \<Rightarrow> Inl out_of_range
            | Some node \<Rightarrow>
                (case d_frame_map st (node_frame_id node) of
                   None \<Rightarrow> Inl out_of_range
                 | Some frame \<Rightarrow>
                     (case toPythonObject frame current_lineno of
                        None \<Rightarrow> Inl NullResult
                      | Some pyframe \<Rightarrow>
                          Py_GetStackFrame_loop toPythonObject st max_stacks (parent_index node)
                            (stacks_obtained + 1) (parent_lineno frame) (list @ [pyframe]))))
      else Inr list)"
  by pat_completeness auto
termination
  by (relation "measure (\<lambda>(t, st, max_stacks, i, stacks_obtained, l, xs).
        unat (max_stacks - stacks_obtained))")
     (auto intro: size_t_countdown)

declare Py_GetStackFrame_loop.simps [simp del]

definition Py_GetStackFrame ::
  "(Frame \<Rightarrow> int \<Rightarrow> 'o option) \<Rightarrow> RecordReader \<Rightarrow> nat \<Rightarrow> 'w::len word \<Rightarrow> error + 'o list" where
  "Py_GetStackFrame toPythonObject st idx max_stacks =
     Py_GetStackFrame_loop toPythonObject st max_stacks idx 0 (- 1) []"

text \<open>The inner loop of \<^verbatim>\<open>Py_GetNativeStackFrame\<close>, lines 260-270, over the resolved frames.\<close>

fun append_resolved_frames :: "('n \<Rightarrow> 'o option) \<Rightarrow> 'n list \<Rightarrow> 'o list \<Rightarrow> error + 'o list" where
  "append_resolved_frames toPythonObject [] list = Inr list"
| "append_resolved_frames toPythonObject (native_frame # frames) list =
     (case toPythonObject native_frame of
        None \<Rightarrow> Inl NullResult
      | Some pyframe \<Rightarrow> append_resolved_frames toPythonObject frames (list @ [pyframe]))"

function Py_GetNativeStackFrame_loop ::
  "(Module list \<Rightarrow> nat \<Rightarrow> 'n list option) \<Rightarrow> ('n \<Rightarrow> 'o option) \<Rightarrow> RecordReader \<Rightarrow> nat \<Rightarrow>
   'w::len word \<Rightarrow> nat \<Rightarrow> 'w word \<Rightarrow> 'o list \<Rightarrow> error + 'o list" where
  "Py_GetNativeStackFrame_loop lookup toPythonObject st gen max_stacks current_index
       stacks_obtained list =
     (if current_index \<noteq> 0 \<and> stacks_obtained \<noteq> max_stacks
      then (if current_index - 1 < length (d_native_frames st)
            then (let frame = d_native_frames st ! (current_index - 1)
                  in case resolve lookup (d_symbol_resolver st) (ip frame) gen of
                       None \<Rightarrow>
                         Py_GetNativeStackFrame_loop lookup toPythonObject st gen max_stacks
                           (index frame) (stacks_obtained + 1) list
                     | Some resolved_frames \<Rightarrow>
                         (case append_resolved_frames toPythonObject resolved_frames list of
                            Inl e \<Rightarrow> Inl e
                          | Inr list' \<Rightarrow>
                              Py_GetNativeStackFrame_loop lookup toPythonObject st gen max_stacks
                                (index frame) (stacks_obtained + 1) list'))
            else Inl UndefinedBehaviour)
      else Inr list)"
  by pat_completeness auto
termination
  by (relation "measure (\<lambda>(r, t, st, gen, max_stacks, i, stacks_obtained, xs).
        unat (max_stacks - stacks_obtained))")
     (auto intro: size_t_countdown)

declare Py_GetNativeStackFrame_loop.simps [simp del]

definition Py_GetNativeStackFrame ::
  "(Module list \<Rightarrow> nat \<Rightarrow> 'n list option) \<Rightarrow> ('n \<Rightarrow> 'o option) \<Rightarrow> RecordReader \<Rightarrow> nat \<Rightarrow>
   nat \<Rightarrow> 'w::len word \<Rightarrow> error + 'o list" where
  "Py_GetNativeStackFrame lookup toPythonObject st idx gen max_stacks =
     Py_GetNativeStackFrame_loop lookup toPythonObject st gen max_stacks idx 0 []"

subsection \<open>A small platform for worked examples\<close>

text \<open>
  A platform on which every integer field is one byte wide, so that a trace can be
  written down byte by byte. Record types are numbered from 1 in the order ALLOCATION,
  FRAME\_INDEX, FRAME, NATIVE\_TRACE\_INDEX, MEMORY\_MAP\_START, SEGMENT\_HEADER, SEGMENT;
  the action byte is 0 for a push and 1 for a pop; line numbers are signed bytes; the
  reader's own frame identifiers are the odd numbers; the assertions are compiled in.
\<close>

definition small_RecordType :: "byte list \<Rightarrow> RecordType" where
  "small_RecordType bytes =
     (if bytes = [1] then ALLOCATION
      else if bytes = [2] then FRAME_INDEX
      else if bytes = [3] then FRAME
      else if bytes = [4] then NATIVE_TRACE_INDEX
      else if bytes = [5] then MEMORY_MAP_START
      else if bytes = [6] then SEGMENT_HEADER
      else if bytes = [7] then SEGMENT
      else OTHER_RECORD_TYPE)"

definition small_FrameSeqEntry :: "byte list \<Rightarrow> FrameSeqEntry" where
  "small_FrameSeqEntry bytes =
     \<lparr>frame_id = unat (bytes ! 0), tid = unat (bytes ! 1),
      action = (if bytes ! 2 = 0 then PUSH else if bytes ! 2 = 1 then POP else OTHER_ACTION)\<rparr>"

definition small_UnresolvedNativeFrame :: "byte list \<Rightarrow> UnresolvedNativeFrame" where
  "small_UnresolvedNativeFrame bytes = \<lparr>ip = unat (bytes ! 0), index = unat (bytes ! 1)\<rparr>"

definition small_AllocationRecord :: "byte list \<Rightarrow> AllocationRecord" where
  "small_AllocationRecord bytes =
     \<lparr>tid = unat (bytes ! 0), address = unat (bytes ! 1), size = unat (bytes ! 2),
      allocator = unat (bytes ! 3), py_lineno = sint (bytes ! 4),
      native_frame_id = unat (bytes ! 5)\<rparr>"

definition small_Segment :: "byte list \<Rightarrow> Segment" where
  "small_Segment bytes = \<lparr>vaddr = unat (bytes ! 0), memsz = unat (bytes ! 1)\<rparr>"

definition small_platform :: platform where
  "small_platform =
     \<lparr>ndebug = False,
      MAGIC = [80, 69, 78, 83, 73, 69, 86, 69],
      CURRENT_HEADER_VERSION = 1,
      sizeof_version = 1,
      decode_version = (\<lambda>bytes. sint (bytes ! 0)),
      sizeof_native_traces = 1,
      sizeof_stats = 2,
      RecordType_more_bytes = 0,
      decode_RecordType = small_RecordType,
      sizeof_FrameSeqEntry = 3,
      decode_FrameSeqEntry = small_FrameSeqEntry,
      sizeof_frame_id_t = 1,
      decode_frame_id_t = (\<lambda>bytes. unat (bytes ! 0)),
      sizeof_int = 1,
      decode_int = (\<lambda>bytes. sint (bytes ! 0)),
      sizeof_UnresolvedNativeFrame = 2,
      decode_UnresolvedNativeFrame = small_UnresolvedNativeFrame,
      sizeof_AllocationRecord = 6,
      decode_AllocationRecord = small_AllocationRecord,
      sizeof_size_t = 1,
      decode_size_t = (\<lambda>bytes. unat (bytes ! 0)),
      sizeof_uintptr_t = 1,
      decode_uintptr_t = (\<lambda>bytes. unat (bytes ! 0)),
      sizeof_Segment = 2,
      decode_Segment = small_Segment,
      default_lineno = 0,
      new_frame_id = (\<lambda>n. 2 * n + 1)\<rparr>"

definition small_header :: HeaderRecord where
  "small_header =
     \<lparr>magic = [80, 69, 78, 83, 73, 69, 86, 69], version = 1, native_traces = [0],
      stats = [0, 0], command_line = []\<rparr>"

section \<open>The trace format as the spec words it\<close>

text \<open>
  Sections 4.6 and 6 of the spec: a record is a record-type tag and a payload that the
  tag decides: fixed-size fields, null-terminated strings, or a count followed by that
  many SEGMENT sub-records. \<open>lex_record\<close> splits the first record off a byte sequence
  without any decoder state; it is \<open>None\<close> when the bytes do not hold a whole record of a
  known type.
\<close>

datatype trace_record =
    AllocationRec AllocationRecord
  | FrameRec FrameSeqEntry
  | FrameIndexRec frame_id_t "byte list" "byte list" int
  | NativeTraceIndexRec UnresolvedNativeFrame
  | MemoryMapStartRec
  | SegmentHeaderRec "byte list" nat "Segment list"

definition lex_field :: "nat \<Rightarrow> Source \<Rightarrow> (byte list \<times> Source) option" where
  "lex_field n src = (if n \<le> length src then Some (take n src, drop n src) else None)"

definition lex_string :: "Source \<Rightarrow> (byte list \<times> Source) option" where
  "lex_string src =
     (if 0 \<in> set src
      then Some (takeWhile (\<lambda>b. b \<noteq> 0) src, tl (dropWhile (\<lambda>b. b \<noteq> 0) src))
      else None)"

fun lex_segments :: "platform \<Rightarrow> nat \<Rightarrow> Source \<Rightarrow> (Segment list \<times> Source) option" where
  "lex_segments P 0 src = Some ([], src)"
| "lex_segments P (Suc n) src =
     (case lex_field (sizeof_RecordType P) src of
        None \<Rightarrow> None
      | Some (t, s1) \<Rightarrow>
          if decode_RecordType P t \<noteq> SEGMENT then None
          else (case lex_field (sizeof_Segment P) s1 of
                  None \<Rightarrow> None
                | Some (b, s2) \<Rightarrow>
                    (case lex_segments P n s2 of
                       None \<Rightarrow> None
                     | Some (segs, s3) \<Rightarrow> Some (decode_Segment P b # segs, s3))))"

definition lex_payload :: "platform \<Rightarrow> RecordType \<Rightarrow> Source \<Rightarrow> (trace_record \<times> Source) option" where
  "lex_payload P t src =
     (case t of
        ALLOCATION \<Rightarrow>
          (case lex_field (sizeof_AllocationRecord P) src of
             None \<Rightarrow> None
           | Some (b, s) \<Rightarrow> Some (AllocationRec (decode_AllocationRecord P b), s))
      | FRAME \<Rightarrow>
          (case lex_field (sizeof_FrameSeqEntry P) src of
             None \<Rightarrow> None
           | Some (b, s) \<Rightarrow> Some (FrameRec (decode_FrameSeqEntry P b), s))
      | FRAME_INDEX \<Rightarrow>
          (case lex_field (sizeof_frame_id_t P) src of
             None \<Rightarrow> None
           | Some (k, s1) \<Rightarrow>
               (case lex_string s1 of
                  None \<Rightarrow> None
                | Some (fn, s2) \<Rightarrow>
                    (case lex_string s2 of
                       None \<Rightarrow> None
                     | Some (file, s3) \<Rightarrow>
                         (case lex_field (sizeof_int P) s3 of
                            None \<Rightarrow> None
                          | Some (l, s4) \<Rightarrow>
                              Some (FrameIndexRec (decode_frame_id_t P k) fn file (decode_int P l), s4)))))
      | NATIVE_TRACE_INDEX \<Rightarrow>
          (case lex_field (sizeof_UnresolvedNativeFrame P) src of
             None \<Rightarrow> None
           | Some (b, s) \<Rightarrow> Some (NativeTraceIndexRec (decode_UnresolvedNativeFrame P b), s))
      | MEMORY_MAP_START \<Rightarrow> Some (MemoryMapStartRec, src)
      | SEGMENT_HEADER \<Rightarrow>
          (case lex_string src of
             None \<Rightarrow> None
           | Some (file, s1) \<Rightarrow>
               (case lex_field (sizeof_size_t P) s1 of
                  None \<Rightarrow> None
                | Some (n, s2) \<Rightarrow>
                    (case lex_field (sizeof_uintptr_t P) s2 of
                       None \<Rightarrow> None
                     | Some (a, s3) \<Rightarrow>
                         (case lex_segments P (decode_size_t P n) s3 of
                            None \<Rightarrow> None
                          | Some (segs, s4) \<Rightarrow>
                              Some (SegmentHeaderRec file (decode_uintptr_t P a) segs, s4)))))
      | SEGMENT \<Rightarrow> None
      | OTHER_RECORD_TYPE \<Rightarrow> None)"

definition lex_record :: "platform \<Rightarrow> Source \<Rightarrow> (trace_record \<times> Source) option" where
  "lex_record P src =
     (case lex_field (sizeof_RecordType P) src of
        None \<Rightarrow> None
      | Some (t, s) \<Rightarrow> lex_payload P (decode_RecordType P t) s)"

section \<open>The parsers read what the format says\<close>

lemma input_read_lex:
  "lex_field n (d_input st) = Some (b, s) \<Longrightarrow> input_read n st = (Inr b, st\<lparr>d_input := s\<rparr>)"
  by (auto simp: lex_field_def input_read_def Source_read_def split: if_splits)

lemma input_getline_lex:
  "lex_string (d_input st) = Some (b, s) \<Longrightarrow> input_getline st = (Inr b, st\<lparr>d_input := s\<rparr>)"
  by (auto simp: lex_string_def input_getline_def Source_getline_def split: if_splits)

lemma parseFrameIndex_lex:
  assumes "lex_payload P FRAME_INDEX (d_input st) = Some (FrameIndexRec k fn fname l, rest)"
  shows "parseFrameIndex P st =
    (case d_frame_map st k of
       Some _ \<Rightarrow> (Inl (runtime_error ''Two entries with the same ID found!''), st\<lparr>d_input := rest\<rparr>)
     | None \<Rightarrow> (Inr (), st\<lparr>d_input := rest,
          d_frame_map := (d_frame_map st)(k \<mapsto> \<lparr>function_name = fn, filename = fname, parent_lineno = l, lineno = default_lineno P\<rparr>)\<rparr>))"
  using assms
  by (auto simp: lex_payload_def parseFrameIndex_def and_then_def input_read_lex input_getline_lex Let_def
      split: option.splits)

lemma parseAllocationRecord_lex:
  "lex_payload P ALLOCATION (d_input st) = Some (AllocationRec a, rest) \<Longrightarrow>
     parseAllocationRecord P st = (Inr a, st\<lparr>d_input := rest\<rparr>)"
  by (auto simp: lex_payload_def parseAllocationRecord_def and_then_def return_value_def
      input_read_lex split: option.splits)

lemma lex_record_tag:
  assumes "lex_record P src = Some (r, rest)"
  obtains t s where "lex_field (sizeof_RecordType P) src = Some (t, s)"
    and "lex_payload P (decode_RecordType P t) s = Some (r, rest)"
  using assms by (auto simp: lex_record_def split: option.splits)

lemma lex_payload_AllocationRec:
  "lex_payload P ty s = Some (AllocationRec a, rest) \<Longrightarrow> ty = ALLOCATION"
  by (cases ty) (auto simp: lex_payload_def split: option.splits)

section \<open>One iteration of the loop\<close>

text \<open>
  The body of the \<^verbatim>\<open>while\<close> loop on its own: \<open>Inl\<close> the state with which the loop goes
  round again, \<open>Inr\<close> the outcome with which it leaves. Properties of the loop are proved
  for one iteration and carried over by induction on the bytes left.
\<close>

definition loop_iteration ::
  "platform \<Rightarrow> RecordReader \<Rightarrow> RecordReader + (error + Allocation) \<times> RecordReader" where
  "loop_iteration P st =
     (case input_read (sizeof_RecordType P) st of
        (Inl e, st1) \<Rightarrow> Inr (Inl e, st1)
      | (Inr record_type, st1) \<Rightarrow>
          (case decode_RecordType P record_type of
             ALLOCATION \<Rightarrow>
               (case parseAllocationRecord P st1 of
                  (Inl e, st2) \<Rightarrow> Inr (Inl e, st2)
                | (Inr record, st2) \<Rightarrow>
                    (case getAllocationFrameIndex P record st2 of
                       (Inl e, st3) \<Rightarrow> Inr (Inl e, st3)
                     | (Inr f_index, st3) \<Rightarrow>
                         Inr (Inr \<lparr>alloc_record = record, frame_index = f_index,
                               native_segment_generation =
                                 currentSegmentGeneration (d_symbol_resolver st3)\<rparr>, st3)))
           | FRAME \<Rightarrow>
               (case parseFrame P st1 of
                  (Inl e, st2) \<Rightarrow> Inr (Inl e, st2)
                | (Inr _, st2) \<Rightarrow> Inl st2)
           | FRAME_INDEX \<Rightarrow>
               (case parseFrameIndex P st1 of
                  (Inl e, st2) \<Rightarrow> Inr (Inl e, st2)
                | (Inr _, st2) \<Rightarrow> Inl st2)
           | NATIVE_TRACE_INDEX \<Rightarrow>
               (case parseNativeFrameIndex P st1 of
                  (Inl e, st2) \<Rightarrow> Inr (Inl e, st2)
                | (Inr _, st2) \<Rightarrow> Inl st2)
           | MEMORY_MAP_START \<Rightarrow>
               Inl (st1\<lparr>d_symbol_resolver := clearSegments (d_symbol_resolver st1)\<rparr>)
           | SEGMENT_HEADER \<Rightarrow>
               (case parseSegmentHeader P st1 of
                  (Inl e, st2) \<Rightarrow> Inr (Inl e, st2)
                | (Inr _, st2) \<Rightarrow> Inl st2)
           | _ \<Rightarrow> Inr (Inl (runtime_error ''Invalid record type''), st1)))"

lemma loop_unfold:
  "nextAllocationRecord_loop P st =
     (case loop_iteration P st of
        Inl st' \<Rightarrow> nextAllocationRecord_loop P st'
      | Inr result \<Rightarrow> result)"
proof -
  obtain r st1 where rd: "input_read (sizeof_RecordType P) st = (r, st1)" by force
  show ?thesis
  proof (cases r)
    case (Inl e)
    with rd show ?thesis
      by (subst nextAllocationRecord_loop.simps) (simp add: loop_iteration_def)
  next
    case (Inr t)
    with rd show ?thesis
      by (subst nextAllocationRecord_loop.simps, cases "decode_RecordType P t")
         (simp_all add: loop_iteration_def split: prod.splits sum.splits)
  qed
qed

lemma loop_iteration_shorter:
  assumes "loop_iteration P st = Inl st'"
  shows "length (d_input st') < length (d_input st)"
proof -
  obtain r st1 where rd: "input_read (sizeof_RecordType P) st = (r, st1)" by force
  with assms obtain t where r: "r = Inr t" by (cases r) (auto simp: loop_iteration_def)
  from rd r have lt: "length (d_input st1) < length (d_input st)"
    using input_read_lt [of "RecordType_more_bytes P" st t st1] by (simp add: sizeof_RecordType_def)
  have "length (d_input st') \<le> length (d_input st1)"
  proof (cases "decode_RecordType P t")
    case FRAME
    with assms rd r parseFrame_le [of P st1] show ?thesis
      by (auto simp: loop_iteration_def split: prod.splits sum.splits)
  next
    case FRAME_INDEX
    with assms rd r parseFrameIndex_le [of P st1] show ?thesis
      by (auto simp: loop_iteration_def split: prod.splits sum.splits)
  next
    case NATIVE_TRACE_INDEX
    with assms rd r parseNativeFrameIndex_le [of P st1] show ?thesis
      by (auto simp: loop_iteration_def split: prod.splits sum.splits)
  next
    case SEGMENT_HEADER
    with assms rd r parseSegmentHeader_le [of P st1] show ?thesis
      by (auto simp: loop_iteration_def split: prod.splits sum.splits)
  qed (use assms rd r in \<open>auto simp: loop_iteration_def split: prod.splits sum.splits\<close>)
  with lt show ?thesis by simp
qed

lemma loop_induct [consumes 0, case_names iteration]:
  assumes "\<And>st. (\<And>st'. loop_iteration P st = Inl st' \<Longrightarrow> Q st') \<Longrightarrow> Q st"
  shows "Q st"
proof (induction "length (d_input st)" arbitrary: st rule: less_induct)
  case less
  show ?case
    by (rule assms) (rule less, rule loop_iteration_shorter)
qed

section \<open>What a handler leaves alone\<close>

text \<open>
  Every handler writes the read position and the members it is about, and nothing else.
  \<open>g\<close> is any view of the reader; it is kept by a handler when it does not depend on the
  members that handler writes.
\<close>

lemma input_read_keeps:
  assumes "\<And>s x. g (s\<lparr>d_input := x\<rparr>) = g s"
  shows "input_read n st = (r, st') \<Longrightarrow> g st' = g st"
  using assms by (auto simp: input_read_def Source_read_def split: if_splits)

lemma input_getline_keeps:
  assumes "\<And>s x. g (s\<lparr>d_input := x\<rparr>) = g s"
  shows "input_getline st = (r, st') \<Longrightarrow> g st' = g st"
  using assms by (auto simp: input_getline_def Source_getline_def split: if_splits)

lemma and_then_keeps:
  assumes "and_then m f st = (r, st')"
    and "\<And>s x s'. m s = (x, s') \<Longrightarrow> g s' = g s"
    and "\<And>a s x s'. f a s = (x, s') \<Longrightarrow> g s' = g s"
  shows "g st' = g st"
proof (cases "m st")
  case (Pair x s1)
  then have eq: "g s1 = g st" by (rule assms(2))
  show ?thesis
  proof (cases x)
    case (Inl e)
    with Pair assms(1) eq show ?thesis by (simp add: and_then_def)
  next
    case (Inr a)
    with Pair assms(1) have "f a s1 = (r, st')" by (simp add: and_then_def)
    then have "g st' = g s1" by (rule assms(3))
    with eq show ?thesis by simp
  qed
qed

lemma parseFrame_keeps:
  assumes "\<And>s x. g (s\<lparr>d_input := x\<rparr>) = g s" and "\<And>s x. g (s\<lparr>d_stack_traces := x\<rparr>) = g s"
  shows "parseFrame P st = (r, st') \<Longrightarrow> g st' = g st"
  unfolding parseFrame_def
  by (erule and_then_keeps, erule input_read_keeps [of g, OF assms(1)])
     (auto simp: Let_def assms(2) split: FrameAction.splits if_splits)

lemma parseFrameIndex_keeps:
  assumes "\<And>s x. g (s\<lparr>d_input := x\<rparr>) = g s" and "\<And>s x. g (s\<lparr>d_frame_map := x\<rparr>) = g s"
  shows "parseFrameIndex P st = (r, st') \<Longrightarrow> g st' = g st"
  unfolding parseFrameIndex_def
  by (erule and_then_keeps, erule input_read_keeps [of g, OF assms(1)],
      erule and_then_keeps, erule input_getline_keeps [of g, OF assms(1)],
      erule and_then_keeps, erule input_getline_keeps [of g, OF assms(1)],
      erule and_then_keeps, erule input_read_keeps [of g, OF assms(1)])
     (auto simp: Let_def assms(2) split: option.splits)

lemma parseNativeFrameIndex_keeps:
  assumes "\<And>s x. g (s\<lparr>d_input := x\<rparr>) = g s" and "\<And>s x. g (s\<lparr>d_native_frames := x\<rparr>) = g s"
  shows "parseNativeFrameIndex P st = (r, st') \<Longrightarrow> g st' = g st"
  unfolding parseNativeFrameIndex_def
  by (erule and_then_keeps, erule input_read_keeps [of g, OF assms(1)]) (auto simp: assms(2))

lemma parseAllocationRecord_keeps:
  assumes "\<And>s x. g (s\<lparr>d_input := x\<rparr>) = g s"
  shows "parseAllocationRecord P st = (r, st') \<Longrightarrow> g st' = g st"
  unfolding parseAllocationRecord_def
  by (erule and_then_keeps, erule input_read_keeps [of g, OF assms(1)])
     (auto simp: return_value_def)

lemma parseSegment_keeps:
  assumes "\<And>s x. g (s\<lparr>d_input := x\<rparr>) = g s"
  shows "parseSegment P st = (r, st') \<Longrightarrow> g st' = g st"
  unfolding parseSegment_def
  by (erule and_then_keeps, erule input_read_keeps [of g, OF assms(1)])
     (auto simp: return_value_def raise_def split: if_splits
           elim!: and_then_keeps [where g = g] input_read_keeps [of g, OF assms(1)])

lemma parseSegmentHeader_loop_keeps:
  assumes "\<And>s x. g (s\<lparr>d_input := x\<rparr>) = g s"
  shows "parseSegmentHeader_loop P n segs st = (r, st') \<Longrightarrow> g st' = g st"
proof (induction n arbitrary: segs st)
  case 0 then show ?case by simp
next
  case (Suc n)
  obtain x s1 where p: "parseSegment P st = (x, s1)" by force
  then have eq: "g s1 = g st" by (rule parseSegment_keeps [of g, OF assms])
  show ?case
  proof (cases x)
    case (Inl e) with p Suc.prems eq show ?thesis by simp
  next
    case (Inr s)
    with p Suc.prems have "parseSegmentHeader_loop P n (segs @ [s]) s1 = (r, st')" by simp
    from Suc.IH [OF this] eq show ?thesis by simp
  qed
qed

lemma parseSegmentHeader_keeps:
  assumes "\<And>s x. g (s\<lparr>d_input := x\<rparr>) = g s"
    and "\<And>s x. g (s\<lparr>d_symbol_resolver := x\<rparr>) = g s"
  shows "parseSegmentHeader P st = (r, st') \<Longrightarrow> g st' = g st"
  unfolding parseSegmentHeader_def Let_def
  by (erule and_then_keeps, erule input_getline_keeps [of g, OF assms(1)],
      erule and_then_keeps, erule input_read_keeps [of g, OF assms(1)],
      erule and_then_keeps, erule input_read_keeps [of g, OF assms(1)],
      erule and_then_keeps, erule parseSegmentHeader_loop_keeps [of g, OF assms(1)])
     (auto simp: assms(2))

subsection \<open>The header is kept\<close>

lemma getAllocationFrameIndex_header:
  "getAllocationFrameIndex P a st = (r, st') \<Longrightarrow> d_header st' = d_header st"
  by (auto simp: getAllocationFrameIndex_def correctAllocationFrame_def Let_def
      split: option.splits prod.splits sum.splits if_splits)

lemma loop_iteration_header:
  "(loop_iteration P st = Inl st' \<longrightarrow> d_header st' = d_header st) \<and>
   (loop_iteration P st = Inr (r, st') \<longrightarrow> d_header st' = d_header st)"
proof -
  obtain x st1 where rd: "input_read (sizeof_RecordType P) st = (x, st1)" by force
  then have h1: "d_header st1 = d_header st" by (rule input_read_keeps [of d_header, rotated]) simp
  show ?thesis
  proof (cases x)
    case (Inl e)
    with rd h1 show ?thesis by (auto simp: loop_iteration_def)
  next
    case (Inr t)
    show ?thesis
    proof (cases "decode_RecordType P t")
      case ALLOCATION
      with rd Inr h1 show ?thesis
        by (auto simp: loop_iteration_def split: prod.splits sum.splits
            dest!: parseAllocationRecord_keeps [of d_header, rotated] getAllocationFrameIndex_header)
    next
      case FRAME
      with rd Inr h1 show ?thesis
        by (auto simp: loop_iteration_def split: prod.splits sum.splits
            dest!: parseFrame_keeps [of d_header, rotated 2])
    next
      case FRAME_INDEX
      with rd Inr h1 show ?thesis
        by (auto simp: loop_iteration_def split: prod.splits sum.splits
            dest!: parseFrameIndex_keeps [of d_header, rotated 2])
    next
      case NATIVE_TRACE_INDEX
      with rd Inr h1 show ?thesis
        by (auto simp: loop_iteration_def split: prod.splits sum.splits
            dest!: parseNativeFrameIndex_keeps [of d_header, rotated 2])
    next
      case SEGMENT_HEADER
      with rd Inr h1 show ?thesis
        by (auto simp: loop_iteration_def split: prod.splits sum.splits
            dest!: parseSegmentHeader_keeps [of d_header, rotated 2])
    qed (use rd Inr h1 in \<open>auto simp: loop_iteration_def\<close>)
  qed
qed

lemma nextAllocationRecord_loop_header:
  "d_header (snd (nextAllocationRecord_loop P st)) = d_header st"
proof (induction st rule: loop_induct [where P = P])
  case (iteration st)
  show ?case
  proof (cases "loop_iteration P st")
    case (Inl st')
    with iteration [OF Inl] loop_iteration_header [where P = P and st = st and st' = st']
    show ?thesis
      by (subst loop_unfold) simp
  next
    case (Inr res)
    with loop_iteration_header [where P = P and st = st and r = "fst res" and st' = "snd res"]
    show ?thesis
      by (subst loop_unfold) simp
  qed
qed

lemma nextAllocationRecord_header:
  "d_header (snd (nextAllocationRecord P st)) = d_header st"
  using nextAllocationRecord_loop_header [of P st]
  by (auto simp: nextAllocationRecord_def split: prod.splits sum.splits error.splits)

lemma nextAllocationRecord_funpow_header:
  "d_header (((\<lambda>s. snd (nextAllocationRecord P s)) ^^ n) st) = d_header st"
  by (induction n) (simp_all add: nextAllocationRecord_header)

lemma readHeader_failure:
  "readHeader P src = (Inl (ios_base_failure msg), src') \<longleftrightarrow>
     (sizeof_MAGIC P \<le> length src \<and> take (sizeof_MAGIC P) src \<noteq> MAGIC P \<and>
      msg = ''The provided input file does not look like a binary generated by pensieve.'' \<and>
      src' = drop (sizeof_MAGIC P) src) \<or>
     (sizeof_MAGIC P + sizeof_version P \<le> length src \<and> take (sizeof_MAGIC P) src = MAGIC P \<and>
      decode_version P (take (sizeof_version P) (drop (sizeof_MAGIC P) src))
        \<noteq> CURRENT_HEADER_VERSION P \<and>
      msg = ''The provided input file is incompatible with this version of pensieve.'' \<and>
      src' = drop (sizeof_MAGIC P + sizeof_version P) src)"
  by (auto simp: readHeader_def and_then_def Source_read_def Source_getline_def raise_def
      return_value_def sizeof_MAGIC_def add.commute split: if_splits)

lemma readHeader_success:
  "readHeader P src = (Inr h, src') \<Longrightarrow> magic h = MAGIC P \<and> version h = CURRENT_HEADER_VERSION P"
  by (auto simp: readHeader_def and_then_def Source_read_def Source_getline_def raise_def
      return_value_def split: if_splits)

subsection \<open>Walking toward the root\<close>

text \<open>
  Section 4.7 of the spec words a walk as following links from an index toward the
  root, one step per link, until the terminal sentinel 0 or the depth bound. \<open>follow\<close> is
  that walk on its own: the indices visited from \<open>i\<close>, at most \<open>n\<close> of them, where \<open>next\<close>
  gives the link stored at an index (\<open>None\<close> where the table has no entry).
\<close>

fun follow :: "(nat \<Rightarrow> nat option) \<Rightarrow> nat \<Rightarrow> nat \<Rightarrow> nat list" where
  "follow next 0 i = []"
| "follow next (Suc n) i =
     (if i = 0 then []
      else i # (case next i of None \<Rightarrow> [] | Some j \<Rightarrow> follow next n j))"


definition chain_next :: "RecordReader \<Rightarrow> nat \<Rightarrow> nat option" where
  "chain_next st i =
     (if i - 1 < length (d_native_frames st) then Some (index (d_native_frames st ! (i - 1)))
      else None)"

text \<open>What one link of a native chain adds to the list, before the conversion to Python.\<close>

definition resolved_at ::
  "(Module list \<Rightarrow> nat \<Rightarrow> 'n list option) \<Rightarrow> RecordReader \<Rightarrow> nat \<Rightarrow> nat \<Rightarrow> 'n list" where
  "resolved_at lookup st gen i =
     (case resolve lookup (d_symbol_resolver st) (ip (d_native_frames st ! (i - 1))) gen of
        None \<Rightarrow> []
      | Some resolved_frames \<Rightarrow> resolved_frames)"

lemma follow_zero [simp]: "follow next n 0 = []"
  by (cases n) simp_all

lemma follow_length: "length (follow next n i) \<le> n"
  by (induction n arbitrary: i) (auto split: option.splits)



lemma size_t_left:
  fixes stacks_obtained max_stacks :: "'w::len word"
  assumes "stacks_obtained \<noteq> max_stacks"
  shows "unat (max_stacks - stacks_obtained) = Suc (unat (max_stacks - (stacks_obtained + 1)))"
proof -
  define d where "d = max_stacks - stacks_obtained"
  from assms have nz: "d \<noteq> 0" by (auto simp: d_def)
  have eq: "max_stacks - (stacks_obtained + 1) = d - 1" by (simp add: d_def)
  from nz have "unat d = Suc (unat (d - 1))"
    by (simp add: unat_minus_one unat_gt_0)
  then show ?thesis unfolding eq d_def .
qed


lemma append_resolved_frames_maps:
  "append_resolved_frames toPy frames list = Inr list' \<Longrightarrow>
     map Some list' = map Some list @ map toPy frames"
  by (induction frames arbitrary: list) (auto split: option.splits)

lemma Py_GetNativeStackFrame_loop_follows:
  "Py_GetNativeStackFrame_loop lookup toPy st gen max_stacks i stacks_obtained list = Inr out \<Longrightarrow>
     map Some out = map Some list
       @ concat (map (\<lambda>j. map toPy (resolved_at lookup st gen j))
           (follow (chain_next st) (unat (max_stacks - stacks_obtained)) i))
     \<and> (\<forall>j \<in> set (follow (chain_next st) (unat (max_stacks - stacks_obtained)) i).
           chain_next st j \<noteq> None)"
proof (induction lookup toPy st gen max_stacks i stacks_obtained list
    rule: Py_GetNativeStackFrame_loop.induct)
  case (1 lookup toPy st gen max_stacks i stacks_obtained list)
  show ?case
  proof (cases "i \<noteq> 0 \<and> stacks_obtained \<noteq> max_stacks")
    case False
    with "1.prems" have "out = list" "i = 0 \<or> stacks_obtained = max_stacks"
      by (auto simp: Py_GetNativeStackFrame_loop.simps
            [of lookup toPy st gen max_stacks i stacks_obtained list])
    then show ?thesis by auto
  next
    case True
    then have left: "unat (max_stacks - stacks_obtained)
        = Suc (unat (max_stacks - (stacks_obtained + 1)))"
      by (simp add: size_t_left)
    note unfold = Py_GetNativeStackFrame_loop.simps
            [of lookup toPy st gen max_stacks i stacks_obtained list]
    from True "1.prems" have range: "i - 1 < length (d_native_frames st)"
      by (auto simp: unfold split: if_splits)
    define frame where "frame = d_native_frames st ! (i - 1)"
    show ?thesis
    proof (cases "resolve lookup (d_symbol_resolver st) (ip frame) gen")
      case None
      with True range "1.prems" have rest:
        "Py_GetNativeStackFrame_loop lookup toPy st gen max_stacks (index frame)
           (stacks_obtained + 1) list = Inr out"
        by (simp add: unfold frame_def)
      from "1.IH"(1) [OF True range frame_def None rest] True range None left show ?thesis
        by (simp add: chain_next_def resolved_at_def frame_def)
    next
      case (Some resolved_frames)
      with True range "1.prems" obtain list' where
        app: "append_resolved_frames toPy resolved_frames list = Inr list'"
        and rest: "Py_GetNativeStackFrame_loop lookup toPy st gen max_stacks (index frame)
           (stacks_obtained + 1) list' = Inr out"
        by (auto simp: unfold frame_def split: sum.splits)
      from "1.IH"(2) [OF True range frame_def Some app rest] True range Some left
        append_resolved_frames_maps [OF app]
      show ?thesis
        by (simp add: chain_next_def resolved_at_def frame_def)
    qed
  qed
qed

lemma Py_GetStackFrame_root: "Py_GetStackFrame toPy st 0 max_stacks = Inr []"
  by (simp add: Py_GetStackFrame_def Py_GetStackFrame_loop.simps)




section \<open>What a whole record does to the reader\<close>

text \<open>
  Every handler reads the whole record before it changes the reader. \<open>apply_record\<close> is
  the change alone, for a record that \<open>lex_record\<close> has split off: the outcome of the
  iteration of the loop that reads this record, as \<open>loop_iteration_lex\<close> below proves.
\<close>

definition apply_FrameSeqEntry ::
  "platform \<Rightarrow> FrameSeqEntry \<Rightarrow> RecordReader \<Rightarrow> (error + unit) \<times> RecordReader" where
  "apply_FrameSeqEntry P e st =
     (case action e of
        PUSH \<Rightarrow>
          (Inr (), st\<lparr>d_stack_traces :=
             (d_stack_traces st)(FrameSeqEntry.tid e \<mapsto>
                stack_of st (FrameSeqEntry.tid e) @ [frame_id e])\<rparr>)
      | POP \<Rightarrow>
          if stack_of st (FrameSeqEntry.tid e) = []
          then (Inl (if ndebug P then UndefinedBehaviour else AssertionFailure),
                st\<lparr>d_stack_traces := (d_stack_traces st)(FrameSeqEntry.tid e \<mapsto> [])\<rparr>)
          else (Inr (), st\<lparr>d_stack_traces :=
                  (d_stack_traces st)(FrameSeqEntry.tid e \<mapsto>
                     butlast (stack_of st (FrameSeqEntry.tid e)))\<rparr>)
      | OTHER_ACTION \<Rightarrow> (Inr (), st))"

definition apply_record ::
  "platform \<Rightarrow> trace_record \<Rightarrow> RecordReader \<Rightarrow>
   RecordReader + (error + Allocation) \<times> RecordReader" where
  "apply_record P r st =
     (case r of
        AllocationRec a \<Rightarrow>
          (case getAllocationFrameIndex P a st of
             (Inl e, st') \<Rightarrow> Inr (Inl e, st')
           | (Inr i, st') \<Rightarrow>
               Inr (Inr \<lparr>alloc_record = a, frame_index = i,
                         native_segment_generation =
                           currentSegmentGeneration (d_symbol_resolver st')\<rparr>, st'))
      | FrameRec e \<Rightarrow>
          (case apply_FrameSeqEntry P e st of
             (Inl err, st') \<Rightarrow> Inr (Inl err, st')
           | (Inr _, st') \<Rightarrow> Inl st')
      | FrameIndexRec k fn fname line \<Rightarrow>
          (case d_frame_map st k of
             Some _ \<Rightarrow> Inr (Inl (runtime_error ''Two entries with the same ID found!''), st)
           | None \<Rightarrow>
               Inl (st\<lparr>d_frame_map := (d_frame_map st)(k \<mapsto>
                      \<lparr>function_name = fn, filename = fname, parent_lineno = line,
                       lineno = default_lineno P\<rparr>)\<rparr>))
      | NativeTraceIndexRec f \<Rightarrow> Inl (st\<lparr>d_native_frames := d_native_frames st @ [f]\<rparr>)
      | MemoryMapStartRec \<Rightarrow>
          Inl (st\<lparr>d_symbol_resolver := clearSegments (d_symbol_resolver st)\<rparr>)
      | SegmentHeaderRec fname addr segs \<Rightarrow>
          Inl (st\<lparr>d_symbol_resolver :=
                 addSegments fname addr (replicate (length segs) Segment_default @ segs)
                   (d_symbol_resolver st)\<rparr>))"

lemma parseFrame_lex:
  "lex_payload P FRAME (d_input st) = Some (FrameRec e, rest) \<Longrightarrow>
     parseFrame P st = apply_FrameSeqEntry P e (st\<lparr>d_input := rest\<rparr>)"
  by (auto simp: lex_payload_def parseFrame_def and_then_def input_read_lex Let_def
      apply_FrameSeqEntry_def stack_of_def split: option.splits FrameAction.splits)

lemma parseNativeFrameIndex_lex:
  "lex_payload P NATIVE_TRACE_INDEX (d_input st) = Some (NativeTraceIndexRec f, rest) \<Longrightarrow>
     parseNativeFrameIndex P st
       = (Inr (), st\<lparr>d_input := rest, d_native_frames := d_native_frames st @ [f]\<rparr>)"
  by (auto simp: lex_payload_def parseNativeFrameIndex_def and_then_def input_read_lex
      split: option.splits)

lemma parseSegment_lex:
  assumes "lex_field (sizeof_RecordType P) (d_input st) = Some (t, s1)"
    and "decode_RecordType P t = SEGMENT"
    and "lex_field (sizeof_Segment P) s1 = Some (b, s2)"
  shows "parseSegment P st = (Inr (decode_Segment P b), st\<lparr>d_input := s2\<rparr>)"
  using assms input_read_lex [of "sizeof_Segment P" "st\<lparr>d_input := s1\<rparr>" b s2]
  by (simp add: parseSegment_def and_then_def return_value_def input_read_lex)

lemma parseSegmentHeader_loop_lex:
  "lex_segments P n (d_input st) = Some (segs, rest) \<Longrightarrow>
     parseSegmentHeader_loop P n acc st = (Inr (acc @ segs), st\<lparr>d_input := rest\<rparr>)
     \<and> length segs = n"
proof (induction n arbitrary: st acc segs)
  case 0
  then show ?case by simp
next
  case (Suc n)
  from Suc.prems obtain t s1 b s2 segs' where
    t: "lex_field (sizeof_RecordType P) (d_input st) = Some (t, s1)"
    and ty: "decode_RecordType P t = SEGMENT"
    and b: "lex_field (sizeof_Segment P) s1 = Some (b, s2)"
    and more: "lex_segments P n s2 = Some (segs', rest)"
    and segs: "segs = decode_Segment P b # segs'"
    by (auto split: option.splits if_splits)
  from parseSegment_lex [OF t ty b]
  have p: "parseSegment P st = (Inr (decode_Segment P b), st\<lparr>d_input := s2\<rparr>)" .
  from Suc.IH [of "st\<lparr>d_input := s2\<rparr>" segs' "acc @ [decode_Segment P b]"] more
  have "parseSegmentHeader_loop P n (acc @ [decode_Segment P b]) (st\<lparr>d_input := s2\<rparr>)
      = (Inr ((acc @ [decode_Segment P b]) @ segs'), st\<lparr>d_input := rest\<rparr>)"
    and "length segs' = n" by simp_all
  with p segs show ?case by simp
qed

lemma parseSegmentHeader_lex:
  assumes "lex_payload P SEGMENT_HEADER (d_input st) = Some (SegmentHeaderRec fname addr segs, rest)"
  shows "parseSegmentHeader P st
       = (Inr (), st\<lparr>d_input := rest,
                      d_symbol_resolver := addSegments fname addr
                        (replicate (length segs) Segment_default @ segs) (d_symbol_resolver st)\<rparr>)"
proof -
  from assms obtain s1 n s2 a s3 where
    f: "lex_string (d_input st) = Some (fname, s1)"
    and n: "lex_field (sizeof_size_t P) s1 = Some (n, s2)"
    and a: "lex_field (sizeof_uintptr_t P) s2 = Some (a, s3)"
    and segs: "lex_segments P (decode_size_t P n) s3 = Some (segs, rest)"
    and addr: "addr = decode_uintptr_t P a"
    by (auto simp: lex_payload_def split: option.splits)
  from parseSegmentHeader_loop_lex [of P "decode_size_t P n" "st\<lparr>d_input := s3\<rparr>" segs rest
      "replicate (decode_size_t P n) Segment_default"] segs
  have loop: "parseSegmentHeader_loop P (decode_size_t P n)
        (replicate (decode_size_t P n) Segment_default) (st\<lparr>d_input := s3\<rparr>)
      = (Inr (replicate (decode_size_t P n) Segment_default @ segs), st\<lparr>d_input := rest\<rparr>)"
    and len: "length segs = decode_size_t P n" by simp_all
  have r1: "input_getline st = (Inr fname, st\<lparr>d_input := s1\<rparr>)"
    using f by (rule input_getline_lex)
  have r2: "input_read (sizeof_size_t P) (st\<lparr>d_input := s1\<rparr>) = (Inr n, st\<lparr>d_input := s2\<rparr>)"
    using input_read_lex [of "sizeof_size_t P" "st\<lparr>d_input := s1\<rparr>" n s2] n by simp
  have r3: "input_read (sizeof_uintptr_t P) (st\<lparr>d_input := s2\<rparr>) = (Inr a, st\<lparr>d_input := s3\<rparr>)"
    using input_read_lex [of "sizeof_uintptr_t P" "st\<lparr>d_input := s2\<rparr>" a s3] a by simp
  show ?thesis
    by (simp add: parseSegmentHeader_def and_then_def r1 r2 r3 loop Let_def addr len)
qed

lemma lex_payload_type:
  assumes "lex_payload P ty s = Some (r, rest)"
  shows "(case r of
            AllocationRec _ \<Rightarrow> ty = ALLOCATION
          | FrameRec _ \<Rightarrow> ty = FRAME
          | FrameIndexRec _ _ _ _ \<Rightarrow> ty = FRAME_INDEX
          | NativeTraceIndexRec _ \<Rightarrow> ty = NATIVE_TRACE_INDEX
          | MemoryMapStartRec \<Rightarrow> ty = MEMORY_MAP_START \<and> rest = s
          | SegmentHeaderRec _ _ _ \<Rightarrow> ty = SEGMENT_HEADER)"
  using assms by (cases ty) (auto simp: lex_payload_def split: option.splits)

lemma loop_iteration_lex:
  assumes "lex_record P (d_input st) = Some (r, rest)"
  shows "loop_iteration P st = apply_record P r (st\<lparr>d_input := rest\<rparr>)"
proof -
  from assms obtain t s where t: "lex_field (sizeof_RecordType P) (d_input st) = Some (t, s)"
    and p: "lex_payload P (decode_RecordType P t) s = Some (r, rest)"
    by (rule lex_record_tag)
  note rd = input_read_lex [OF t]
  note ty = lex_payload_type [OF p]
  let ?s = "st\<lparr>d_input := s\<rparr>"
  have in_s: "d_input ?s = s" by simp
  show ?thesis
  proof (cases r)
    case (AllocationRec a)
    with ty p have ty': "decode_RecordType P t = ALLOCATION"
      and p': "lex_payload P ALLOCATION (d_input ?s) = Some (AllocationRec a, rest)" by simp_all
    from parseAllocationRecord_lex [OF p'] rd ty' AllocationRec show ?thesis
      by (simp add: loop_iteration_def apply_record_def split: prod.splits sum.splits)
  next
    case (FrameRec e)
    with ty p have ty': "decode_RecordType P t = FRAME"
      and p': "lex_payload P FRAME (d_input ?s) = Some (FrameRec e, rest)" by simp_all
    from parseFrame_lex [OF p'] rd ty' FrameRec show ?thesis
      by (simp add: loop_iteration_def apply_record_def split: prod.splits sum.splits)
  next
    case (FrameIndexRec k fn fname line)
    with ty p have ty': "decode_RecordType P t = FRAME_INDEX"
      and p': "lex_payload P FRAME_INDEX (d_input ?s) = Some (FrameIndexRec k fn fname line, rest)"
      by simp_all
    from parseFrameIndex_lex [OF p'] rd ty' FrameIndexRec show ?thesis
      by (simp add: loop_iteration_def apply_record_def split: option.splits)
  next
    case (NativeTraceIndexRec f)
    with ty p have ty': "decode_RecordType P t = NATIVE_TRACE_INDEX"
      and p': "lex_payload P NATIVE_TRACE_INDEX (d_input ?s) = Some (NativeTraceIndexRec f, rest)"
      by simp_all
    from parseNativeFrameIndex_lex [OF p'] rd ty' NativeTraceIndexRec show ?thesis
      by (simp add: loop_iteration_def apply_record_def)
  next
    case MemoryMapStartRec
    with ty have ty': "decode_RecordType P t = MEMORY_MAP_START" and "rest = s" by simp_all
    with rd MemoryMapStartRec show ?thesis
      by (simp add: loop_iteration_def apply_record_def)
  next
    case (SegmentHeaderRec fname addr segs)
    with ty p have ty': "decode_RecordType P t = SEGMENT_HEADER"
      and p': "lex_payload P SEGMENT_HEADER (d_input ?s)
                 = Some (SegmentHeaderRec fname addr segs, rest)"
      by simp_all
    from parseSegmentHeader_lex [OF p'] rd ty' SegmentHeaderRec show ?thesis
      by (simp add: loop_iteration_def apply_record_def)
  qed
qed

section \<open>Decoding a whole trace\<close>

text \<open>
  The caller's side of \<^verbatim>\<open>nextAllocationRecord\<close>: call it until it returns \<^verbatim>\<open>false\<close> or
  throws. The result is the list of the allocations returned, the exception (\<open>None\<close>
  after \<^verbatim>\<open>false\<close>) and the reader as the last call left it. Each call that returns an
  allocation has read at least its record type, so the calls come to an end.
\<close>

lemma getAllocationFrameIndex_input:
  "getAllocationFrameIndex P a st = (r, st') \<Longrightarrow> d_input st' = d_input st"
  by (auto simp: getAllocationFrameIndex_def correctAllocationFrame_def Let_def
      split: option.splits prod.splits sum.splits if_splits)

lemma loop_iteration_allocation_shorter:
  assumes "loop_iteration P st = Inr (Inr a, st')"
  shows "length (d_input st') < length (d_input st)"
proof -
  obtain r st1 where rd: "input_read (sizeof_RecordType P) st = (r, st1)" by force
  with assms obtain t where r: "r = Inr t" by (cases r) (auto simp: loop_iteration_def)
  from rd r have lt: "length (d_input st1) < length (d_input st)"
    using input_read_lt [of "RecordType_more_bytes P" st t st1] by (simp add: sizeof_RecordType_def)
  have ty: "decode_RecordType P t = ALLOCATION"
    using assms rd r
    by (cases "decode_RecordType P t")
       (auto simp: loop_iteration_def split: prod.splits sum.splits)
  obtain r2 st2 where p: "parseAllocationRecord P st1 = (r2, st2)" by force
  with parseAllocationRecord_le [of P st1] have le: "length (d_input st2) \<le> length (d_input st1)"
    by simp
  from assms rd r ty p obtain x where "getAllocationFrameIndex P x st2 = (Inr (frame_index a), st')"
    by (auto simp: loop_iteration_def split: prod.splits sum.splits)
  then have "d_input st' = d_input st2" by (rule getAllocationFrameIndex_input)
  with lt le show ?thesis by simp
qed

lemma nextAllocationRecord_loop_shorter:
  "nextAllocationRecord_loop P st = (Inr a, st') \<Longrightarrow> length (d_input st') < length (d_input st)"
proof (induction st rule: loop_induct [where P = P])
  case (iteration st)
  show ?case
  proof (cases "loop_iteration P st")
    case (Inl st1)
    with iteration.prems have "nextAllocationRecord_loop P st1 = (Inr a, st')"
      by (simp add: loop_unfold [of P st])
    from iteration.IH [OF Inl this] loop_iteration_shorter [OF Inl] show ?thesis by simp
  next
    case (Inr res)
    with iteration.prems have "loop_iteration P st = Inr (Inr a, st')"
      by (simp add: loop_unfold [of P st])
    then show ?thesis by (rule loop_iteration_allocation_shorter)
  qed
qed

lemma nextAllocationRecord_shorter:
  "nextAllocationRecord P st = (Inr (Some a), st') \<Longrightarrow>
     length (d_input st') < length (d_input st)"
  by (auto simp: nextAllocationRecord_def split: prod.splits sum.splits error.splits
      dest: nextAllocationRecord_loop_shorter)

function decode_all ::
  "platform \<Rightarrow> RecordReader \<Rightarrow> Allocation list \<times> error option \<times> RecordReader" where
  "decode_all P st =
     (case nextAllocationRecord P st of
        (Inr (Some a), st') \<Rightarrow> (case decode_all P st' of (allocations, rest) \<Rightarrow> (a # allocations, rest))
      | (Inr None, st') \<Rightarrow> ([], None, st')
      | (Inl e, st') \<Rightarrow> ([], Some e, st'))"
  by pat_completeness auto
termination
  by (relation "measure (\<lambda>(P, st). length (d_input st))")
     (auto dest: nextAllocationRecord_shorter [OF sym])

declare decode_all.simps [simp del]

text \<open>
  A trace as a sequence of records: \<open>holds_trace\<close> says that the bytes are exactly the
  given records, one after the other.
\<close>

fun holds_trace :: "platform \<Rightarrow> Source \<Rightarrow> trace_record list \<Rightarrow> bool" where
  "holds_trace P src [] = (src = [])"
| "holds_trace P src (r # rs) =
     (case lex_record P src of
        None \<Rightarrow> False
      | Some (r', rest) \<Rightarrow> r' = r \<and> holds_trace P rest rs)"

fun allocation_records :: "trace_record list \<Rightarrow> AllocationRecord list" where
  "allocation_records [] = []"
| "allocation_records (AllocationRec a # rs) = a # allocation_records rs"
| "allocation_records (_ # rs) = allocation_records rs"

text \<open>
  A well-formed sequence of records, given the frame identifiers defined so far and the
  depth of every thread's stack: a FRAME\_INDEX record defines an identifier that is not
  defined yet and that is not one of the identifiers the reader mints for precise
  frames; a push names a defined frame; a pop finds a frame to pop; an action is a push
  or a pop.
\<close>

fun well_formed ::
  "platform \<Rightarrow> frame_id_t set \<Rightarrow> (thread_id_t \<Rightarrow> nat) \<Rightarrow> trace_record list \<Rightarrow> bool" where
  "well_formed P defined depth [] = True"
| "well_formed P defined depth (FrameIndexRec k fn fname line # rs) =
     (k \<notin> defined \<and> k \<notin> range (new_frame_id P) \<and> well_formed P (insert k defined) depth rs)"
| "well_formed P defined depth (FrameRec e # rs) =
     (case action e of
        PUSH \<Rightarrow>
          frame_id e \<in> defined \<and>
          well_formed P defined
            (depth(FrameSeqEntry.tid e := Suc (depth (FrameSeqEntry.tid e)))) rs
      | POP \<Rightarrow>
          0 < depth (FrameSeqEntry.tid e) \<and>
          well_formed P defined
            (depth(FrameSeqEntry.tid e := depth (FrameSeqEntry.tid e) - 1)) rs
      | OTHER_ACTION \<Rightarrow> False)"
| "well_formed P defined depth (_ # rs) = well_formed P defined depth rs"

text \<open>
  What the reader keeps true while it decodes a well-formed trace: every stack is as
  deep as the pushes and pops say, every identifier on a stack and every identifier of
  the frame collection is in the frame table, and the frame table holds the identifiers
  the trace has defined and, besides them, only identifiers the reader minted.
\<close>

definition reader_ok ::
  "platform \<Rightarrow> frame_id_t set \<Rightarrow> (thread_id_t \<Rightarrow> nat) \<Rightarrow> RecordReader \<Rightarrow> bool" where
  "reader_ok P defined depth st \<longleftrightarrow>
     (\<forall>t. length (stack_of st t) = depth t) \<and>
     (\<forall>t. set (stack_of st t) \<subseteq> dom (d_frame_map st)) \<and>
     defined \<subseteq> dom (d_frame_map st) \<and>
     dom (d_frame_map st) \<subseteq> defined \<union> range (new_frame_id P) \<and>
     ran (known_frames (d_allocation_frames st)) \<subseteq> dom (d_frame_map st)"

lemma reader_ok_input [simp]:
  "reader_ok P defined depth (st\<lparr>d_input := src\<rparr>) = reader_ok P defined depth st"
  by (simp add: reader_ok_def stack_of_def)

lemma reader_ok_native [simp]:
  "reader_ok P defined depth (st\<lparr>d_native_frames := x\<rparr>) = reader_ok P defined depth st"
  by (simp add: reader_ok_def stack_of_def)

lemma reader_ok_resolver [simp]:
  "reader_ok P defined depth (st\<lparr>d_symbol_resolver := x\<rparr>) = reader_ok P defined depth st"
  by (simp add: reader_ok_def stack_of_def)

lemma reader_ok_tree [simp]:
  "reader_ok P defined depth (st\<lparr>d_tree := x\<rparr>) = reader_ok P defined depth st"
  by (simp add: reader_ok_def stack_of_def)

lemma reader_ok_fresh: "reader_ok P {} (\<lambda>_. 0) (fresh_reader h src)"
  by (simp add: reader_ok_def stack_of_def fresh_reader_def FrameCollection_init_def)

lemma stack_of_update:
  "stack_of (st\<lparr>d_stack_traces := (d_stack_traces st)(t \<mapsto> s)\<rparr>) t'
     = (if t' = t then s else stack_of st t')"
  by (simp add: stack_of_def)

lemma reader_okI:
  assumes "\<And>t. length (stack_of st t) = depth t"
    and "\<And>t x. x \<in> set (stack_of st t) \<Longrightarrow> x \<in> dom (d_frame_map st)"
    and "\<And>x. x \<in> defined \<Longrightarrow> x \<in> dom (d_frame_map st)"
    and "\<And>x. x \<in> dom (d_frame_map st) \<Longrightarrow> x \<in> defined \<or> x \<in> range (new_frame_id P)"
    and "\<And>x. x \<in> ran (known_frames (d_allocation_frames st)) \<Longrightarrow> x \<in> dom (d_frame_map st)"
  shows "reader_ok P defined depth st"
  unfolding reader_ok_def using assms by blast

lemma reader_ok_depth: "reader_ok P defined depth st \<Longrightarrow> length (stack_of st t) = depth t"
  by (simp add: reader_ok_def)

lemma reader_ok_stack:
  "reader_ok P defined depth st \<Longrightarrow> x \<in> set (stack_of st t) \<Longrightarrow> x \<in> dom (d_frame_map st)"
  unfolding reader_ok_def by blast

lemma reader_ok_defined:
  "reader_ok P defined depth st \<Longrightarrow> x \<in> defined \<Longrightarrow> x \<in> dom (d_frame_map st)"
  unfolding reader_ok_def by blast

lemma reader_ok_dom:
  "reader_ok P defined depth st \<Longrightarrow> x \<in> dom (d_frame_map st) \<Longrightarrow>
     x \<in> defined \<or> x \<in> range (new_frame_id P)"
  unfolding reader_ok_def by blast

lemma reader_ok_known:
  "reader_ok P defined depth st \<Longrightarrow> x \<in> ran (known_frames (d_allocation_frames st)) \<Longrightarrow>
     x \<in> dom (d_frame_map st)"
  unfolding reader_ok_def by blast

lemma reader_ok_push:
  assumes ok: "reader_ok P defined depth st" and f: "f \<in> defined"
  shows "reader_ok P defined (depth(t := Suc (depth t)))
           (st\<lparr>d_stack_traces := (d_stack_traces st)(t \<mapsto> stack_of st t @ [f])\<rparr>)"
proof (rule reader_okI)
  fix t'
  show "length (stack_of (st\<lparr>d_stack_traces := (d_stack_traces st)(t \<mapsto> stack_of st t @ [f])\<rparr>) t')
      = (depth(t := Suc (depth t))) t'"
    using reader_ok_depth [OF ok] by (simp add: stack_of_update)
next
  fix t' x
  assume "x \<in> set (stack_of (st\<lparr>d_stack_traces := (d_stack_traces st)(t \<mapsto> stack_of st t @ [f])\<rparr>) t')"
  then have "x = f \<or> x \<in> set (stack_of st t) \<or> x \<in> set (stack_of st t')"
    by (auto simp: stack_of_update split: if_splits)
  with reader_ok_stack [OF ok] reader_ok_defined [OF ok f]
  show "x \<in> dom (d_frame_map (st\<lparr>d_stack_traces := (d_stack_traces st)(t \<mapsto> stack_of st t @ [f])\<rparr>))"
    by auto
qed (use ok in \<open>auto dest: reader_ok_defined reader_ok_dom reader_ok_known\<close>)

lemma reader_ok_pop:
  assumes ok: "reader_ok P defined depth st"
  shows "reader_ok P defined (depth(t := depth t - 1))
           (st\<lparr>d_stack_traces := (d_stack_traces st)(t \<mapsto> butlast (stack_of st t))\<rparr>)"
proof (rule reader_okI)
  fix t'
  show "length (stack_of (st\<lparr>d_stack_traces := (d_stack_traces st)(t \<mapsto> butlast (stack_of st t))\<rparr>) t')
      = (depth(t := depth t - 1)) t'"
    using reader_ok_depth [OF ok] by (simp add: stack_of_update)
next
  fix t' x
  assume "x \<in> set (stack_of (st\<lparr>d_stack_traces := (d_stack_traces st)(t \<mapsto> butlast (stack_of st t))\<rparr>) t')"
  then have "x \<in> set (stack_of st t) \<or> x \<in> set (stack_of st t')"
    by (auto simp: stack_of_update split: if_splits dest: in_set_butlastD)
  with reader_ok_stack [OF ok]
  show "x \<in> dom (d_frame_map (st\<lparr>d_stack_traces := (d_stack_traces st)(t \<mapsto> butlast (stack_of st t))\<rparr>))"
    by auto
qed (use ok in \<open>auto dest: reader_ok_defined reader_ok_dom reader_ok_known\<close>)

lemma reader_ok_define:
  assumes ok: "reader_ok P defined depth st"
  shows "reader_ok P (insert k defined) depth (st\<lparr>d_frame_map := (d_frame_map st)(k \<mapsto> f)\<rparr>)"
proof (rule reader_okI)
  fix t
  show "length (stack_of (st\<lparr>d_frame_map := (d_frame_map st)(k \<mapsto> f)\<rparr>) t) = depth t"
    using reader_ok_depth [OF ok] by (simp add: stack_of_def)
next
  fix t x
  assume "x \<in> set (stack_of (st\<lparr>d_frame_map := (d_frame_map st)(k \<mapsto> f)\<rparr>) t)"
  then have "x \<in> set (stack_of st t)" by (simp add: stack_of_def)
  with reader_ok_stack [OF ok]
  show "x \<in> dom (d_frame_map (st\<lparr>d_frame_map := (d_frame_map st)(k \<mapsto> f)\<rparr>))" by auto
next
  fix x
  assume "x \<in> dom (d_frame_map (st\<lparr>d_frame_map := (d_frame_map st)(k \<mapsto> f)\<rparr>))"
  then have "x = k \<or> x \<in> dom (d_frame_map st)" by (auto split: if_splits)
  with reader_ok_dom [OF ok]
  show "x \<in> insert k defined \<or> x \<in> range (new_frame_id P)" by auto
qed (use ok in \<open>auto dest: reader_ok_defined reader_ok_known\<close>)

lemma reader_ok_undefined:
  assumes "reader_ok P defined depth st" and "k \<notin> defined" and "k \<notin> range (new_frame_id P)"
  shows "d_frame_map st k = None"
  using assms reader_ok_dom [of P defined depth st k] by auto

text \<open>The correction of the top of a stack, as a change of the reader.\<close>

lemma reader_ok_correct:
  assumes ok: "reader_ok P defined depth st"
    and stack: "stack_of st t = stack" "stack \<noteq> []"
    and i: "i \<in> dom m"
    and m: "dom m \<subseteq> insert i (dom (d_frame_map st))" "dom (d_frame_map st) \<subseteq> dom m"
    and inew: "i \<in> dom (d_frame_map st) \<or> i \<in> range (new_frame_id P)"
    and k: "ran (known_frames c) \<subseteq> insert i (ran (known_frames (d_allocation_frames st)))"
  shows "reader_ok P defined depth
           (st\<lparr>d_allocation_frames := c, d_frame_map := m,
               d_stack_traces := (d_stack_traces st)(t \<mapsto> butlast stack @ [i])\<rparr>)"
    (is "reader_ok P defined depth ?st'")
proof -
  have stacks: "stack_of ?st' t' = (if t' = t then butlast stack @ [i] else stack_of st t')" for t'
    by (simp add: stack_of_def)
  have fm: "dom (d_frame_map ?st') = dom m" by simp
  have kf: "ran (known_frames (d_allocation_frames ?st')) = ran (known_frames c)" by simp
  show ?thesis
  proof (rule reader_okI)
    fix t'
    show "length (stack_of ?st' t') = depth t'"
      using reader_ok_depth [OF ok] stack by (auto simp: stacks)
  next
    fix t' x
    assume "x \<in> set (stack_of ?st' t')"
    then have "x = i \<or> x \<in> set (stack_of st t) \<or> x \<in> set (stack_of st t')"
      using stack by (auto simp: stacks split: if_splits dest: in_set_butlastD)
    then show "x \<in> dom (d_frame_map ?st')"
      unfolding fm using reader_ok_stack [OF ok] i m(2) by blast
  next
    fix x assume "x \<in> defined"
    then show "x \<in> dom (d_frame_map ?st')"
      unfolding fm using reader_ok_defined [OF ok] m(2) by blast
  next
    fix x assume "x \<in> dom (d_frame_map ?st')"
    then have "x = i \<or> x \<in> dom (d_frame_map st)" unfolding fm using m(1) by blast
    with reader_ok_dom [OF ok] inew show "x \<in> defined \<or> x \<in> range (new_frame_id P)" by blast
  next
    fix x assume "x \<in> ran (known_frames (d_allocation_frames ?st'))"
    then have "x = i \<or> x \<in> ran (known_frames (d_allocation_frames st))"
      unfolding kf using k by blast
    then show "x \<in> dom (d_frame_map ?st')"
      unfolding fm using reader_ok_known [OF ok] i m(2) by blast
  qed
qed

lemma getAllocationFrameIndex_ok:
  assumes ok: "reader_ok P defined depth st"
  shows "\<exists>i st'. getAllocationFrameIndex P a st = (Inr i, st') \<and> reader_ok P defined depth st'
           \<and> d_input st' = d_input st"
proof (cases "d_stack_traces st (AllocationRecord.tid a)")
  case None
  with ok show ?thesis by (simp add: getAllocationFrameIndex_def)
next
  case (Some stack)
  then have so: "stack_of st (AllocationRecord.tid a) = stack" by (simp add: stack_of_def)
  let ?t = "AllocationRecord.tid a"
  show ?thesis
  proof (cases "stack = []")
    case True
    have "st\<lparr>d_stack_traces := (d_stack_traces st)(?t \<mapsto> [])\<rparr> = st"
      using Some True by (simp add: fun_upd_idem)
    with ok Some True show ?thesis
      by (simp add: getAllocationFrameIndex_def correctAllocationFrame_def split: prod.splits)
  next
    case False
    then have "last stack \<in> set (stack_of st ?t)" using so by simp
    with reader_ok_stack [OF ok] obtain partial_frame where
      pf: "d_frame_map st (last stack) = Some partial_frame" by blast
    let ?f = "\<lparr>function_name = function_name partial_frame, filename = filename partial_frame,
               parent_lineno = parent_lineno partial_frame, lineno = py_lineno a\<rparr>"
    show ?thesis
    proof (cases "known_frames (d_allocation_frames st) ?f")
      case None
      let ?i = "new_frame_id P (minted (d_allocation_frames st))"
      let ?c = "(d_allocation_frames st)\<lparr>known_frames := (known_frames (d_allocation_frames st))
                   (?f \<mapsto> ?i), minted := Suc (minted (d_allocation_frames st))\<rparr>"
      let ?m = "if d_frame_map st ?i = None then (d_frame_map st)(?i \<mapsto> ?f) else d_frame_map st"
      let ?st' = "st\<lparr>d_allocation_frames := ?c, d_frame_map := ?m,
                     d_stack_traces := (d_stack_traces st)(?t \<mapsto> butlast stack @ [?i])\<rparr>"
      have "reader_ok P defined depth ?st'"
      proof (rule reader_ok_correct [OF ok so False])
        show "?i \<in> dom ?m" by auto
        show "dom ?m \<subseteq> insert ?i (dom (d_frame_map st))" by auto
        show "dom (d_frame_map st) \<subseteq> dom ?m" by auto
        show "?i \<in> dom (d_frame_map st) \<or> ?i \<in> range (new_frame_id P)" by blast
        show "ran (known_frames ?c) \<subseteq> insert ?i (ran (known_frames (d_allocation_frames st)))"
          by (auto simp: ran_def)
      qed
      moreover have "\<exists>j tree. getAllocationFrameIndex P a st = (Inr j, ?st'\<lparr>d_tree := tree\<rparr>)"
        using Some False pf None
        by (auto simp: getAllocationFrameIndex_def correctAllocationFrame_def getIndex_def Let_def
            split: prod.splits)
      ultimately show ?thesis by auto
    next
      case known: (Some i)
      let ?st' = "st\<lparr>d_allocation_frames := d_allocation_frames st, d_frame_map := d_frame_map st,
                     d_stack_traces := (d_stack_traces st)(?t \<mapsto> butlast stack @ [i])\<rparr>"
      from known have "i \<in> ran (known_frames (d_allocation_frames st))" by (auto simp: ran_def)
      with reader_ok_known [OF ok] have i: "i \<in> dom (d_frame_map st)" by blast
      have "reader_ok P defined depth ?st'"
        by (rule reader_ok_correct [OF ok so False]) (use i in auto)
      moreover have "\<exists>j tree. getAllocationFrameIndex P a st = (Inr j, ?st'\<lparr>d_tree := tree\<rparr>)"
        using Some False pf known
        by (auto simp: getAllocationFrameIndex_def correctAllocationFrame_def getIndex_def Let_def
            split: prod.splits)
      ultimately show ?thesis by auto
    qed
  qed
qed

lemma apply_record_ok:
  assumes ok: "reader_ok P defined depth st" and wf: "well_formed P defined depth (r # rs)"
  shows "(\<exists>a alloc st'. r = AllocationRec a \<and> apply_record P r st = Inr (Inr alloc, st') \<and>
            alloc_record alloc = a \<and> d_input st' = d_input st \<and>
            reader_ok P defined depth st' \<and> well_formed P defined depth rs)
       \<or> (\<exists>st' defined' depth'. allocation_records (r # rs) = allocation_records rs \<and>
            apply_record P r st = Inl st' \<and> d_input st' = d_input st \<and>
            reader_ok P defined' depth' st' \<and> well_formed P defined' depth' rs)"
proof (cases r)
  case (AllocationRec a)
  from getAllocationFrameIndex_ok [OF ok, of a] obtain i st' where
    "getAllocationFrameIndex P a st = (Inr i, st')" "reader_ok P defined depth st'"
    "d_input st' = d_input st" by blast
  with AllocationRec wf show ?thesis by (simp add: apply_record_def)
next
  case (FrameRec e)
  let ?t = "FrameSeqEntry.tid e"
  show ?thesis
  proof (cases "action e")
    case PUSH
    with FrameRec wf have f: "frame_id e \<in> defined"
      and wf': "well_formed P defined (depth(?t := Suc (depth ?t))) rs" by simp_all
    from reader_ok_push [OF ok f, of ?t] wf' FrameRec PUSH show ?thesis
      by (auto simp: apply_record_def apply_FrameSeqEntry_def)
  next
    case POP
    with FrameRec wf have d: "0 < depth ?t"
      and wf': "well_formed P defined (depth(?t := depth ?t - 1)) rs" by simp_all
    from d reader_ok_depth [OF ok, of ?t] have ne: "stack_of st ?t \<noteq> []" by auto
    from reader_ok_pop [OF ok, of ?t] wf' FrameRec POP ne show ?thesis
      by (auto simp: apply_record_def apply_FrameSeqEntry_def)
  next
    case OTHER_ACTION
    with FrameRec wf show ?thesis by simp
  qed
next
  case (FrameIndexRec k fn fname line)
  with wf have k: "k \<notin> defined" "k \<notin> range (new_frame_id P)"
    and wf': "well_formed P (insert k defined) depth rs" by simp_all
  from reader_ok_undefined [OF ok k] have none: "d_frame_map st k = None" .
  from reader_ok_define [OF ok, of k] wf' FrameIndexRec none show ?thesis
    by (auto simp: apply_record_def)
next
  case (NativeTraceIndexRec f)
  with ok wf show ?thesis by (auto simp: apply_record_def)
next
  case MemoryMapStartRec
  with ok wf show ?thesis by (auto simp: apply_record_def)
next
  case (SegmentHeaderRec fname addr segs)
  with ok wf show ?thesis by (auto simp: apply_record_def)
qed

lemma nextAllocationRecord_exhausted:
  assumes "length (d_input st) < sizeof_RecordType P"
  shows "nextAllocationRecord P st = (Inr None, st\<lparr>d_input := []\<rparr>)"
proof -
  from assms have "input_read (sizeof_RecordType P) st = (Inl IoError, st\<lparr>d_input := []\<rparr>)"
    by (simp add: input_read_def Source_read_def)
  then have "loop_iteration P st = Inr (Inl IoError, st\<lparr>d_input := []\<rparr>)"
    by (simp add: loop_iteration_def)
  then show ?thesis by (simp add: nextAllocationRecord_def loop_unfold [of P st])
qed

lemma nextAllocationRecord_continue:
  "loop_iteration P st = Inl st' \<Longrightarrow> nextAllocationRecord P st = nextAllocationRecord P st'"
  by (simp add: nextAllocationRecord_def loop_unfold [of P st])

lemma nextAllocationRecord_return:
  "loop_iteration P st = Inr (Inr alloc, st') \<Longrightarrow>
     nextAllocationRecord P st = (Inr (Some alloc), st')"
  by (simp add: nextAllocationRecord_def loop_unfold [of P st])

lemma decode_all_well_formed:
  assumes "reader_ok P defined depth st" and "holds_trace P (d_input st) rs"
    and "well_formed P defined depth rs"
  shows "map alloc_record (fst (decode_all P st)) = allocation_records rs
         \<and> fst (snd (decode_all P st)) = None
         \<and> d_input (snd (snd (decode_all P st))) = []"
  using assms
proof (induction rs arbitrary: st defined depth)
  case Nil
  then have "d_input st = []" by simp
  then have "nextAllocationRecord P st = (Inr None, st\<lparr>d_input := []\<rparr>)"
    by (intro nextAllocationRecord_exhausted) (simp add: sizeof_RecordType_def)
  then show ?case by (simp add: decode_all.simps [of P st])
next
  case (Cons r rs)
  from Cons.prems(2) obtain rest where lex: "lex_record P (d_input st) = Some (r, rest)"
    and more: "holds_trace P rest rs"
    by (auto split: option.splits)
  let ?s = "st\<lparr>d_input := rest\<rparr>"
  have it: "loop_iteration P st = apply_record P r ?s" using lex by (rule loop_iteration_lex)
  have ok: "reader_ok P defined depth ?s" using Cons.prems(1) by simp
  from apply_record_ok [OF ok Cons.prems(3)] show ?case
  proof (elim disjE exE conjE)
    fix a alloc st'
    assume r: "r = AllocationRec a" and ap: "apply_record P r ?s = Inr (Inr alloc, st')"
      and a: "alloc_record alloc = a" and inp: "d_input st' = d_input ?s"
      and ok': "reader_ok P defined depth st'" and wf': "well_formed P defined depth rs"
    from it ap have "nextAllocationRecord P st = (Inr (Some alloc), st')"
      by (simp add: nextAllocationRecord_return)
    then have d: "decode_all P st
        = (alloc # fst (decode_all P st'), snd (decode_all P st'))"
      by (simp add: decode_all.simps [of P st] split: prod.splits)
    from inp more have "holds_trace P (d_input st') rs" by simp
    from Cons.IH [OF ok' this wf'] d r a show ?thesis by simp
  next
    fix st' defined' depth'
    assume al: "allocation_records (r # rs) = allocation_records rs"
      and ap: "apply_record P r ?s = Inl st'" and inp: "d_input st' = d_input ?s"
      and ok': "reader_ok P defined' depth' st'" and wf': "well_formed P defined' depth' rs"
    from it ap have "nextAllocationRecord P st = nextAllocationRecord P st'"
      by (simp add: nextAllocationRecord_continue)
    then have d: "decode_all P st = decode_all P st'"
      by (simp add: decode_all.simps [of P st] decode_all.simps [of P st'])
    from inp more have "holds_trace P (d_input st') rs" by simp
    from Cons.IH [OF ok' this wf'] d al show ?thesis by simp
  qed
qed

section \<open>Threads without a push\<close>

text \<open>
  \<open>never_pushed P t st\<close>: the reader \<open>st\<close> is as the constructor left it, or has come from
  such a reader by iterations of the loop none of which read a FRAME record with action
  \<^verbatim>\<open>PUSH\<close> for the thread \<open>t\<close>. Such a reader has no stack for \<open>t\<close>.
\<close>

definition is_push :: "thread_id_t \<Rightarrow> trace_record \<Rightarrow> bool" where
  "is_push t r =
     (case r of FrameRec e \<Rightarrow> FrameSeqEntry.tid e = t \<and> action e = PUSH | _ \<Rightarrow> False)"

definition next_is_push :: "platform \<Rightarrow> thread_id_t \<Rightarrow> RecordReader \<Rightarrow> bool" where
  "next_is_push P t st =
     (case lex_record P (d_input st) of None \<Rightarrow> False | Some (r, rest) \<Rightarrow> is_push t r)"

inductive never_pushed :: "platform \<Rightarrow> thread_id_t \<Rightarrow> RecordReader \<Rightarrow> bool"
  for P :: platform and t :: thread_id_t where
  constructed: "never_pushed P t (fresh_reader h src)"
| went_round: "never_pushed P t st \<Longrightarrow> loop_iteration P st = Inl st' \<Longrightarrow>
     \<not> next_is_push P t st \<Longrightarrow> never_pushed P t st'"
| returned: "never_pushed P t st \<Longrightarrow> loop_iteration P st = Inr (Inr a, st') \<Longrightarrow>
     never_pushed P t st'"

lemma input_read_Inr:
  "input_read n st = (Inr b, st') \<Longrightarrow>
     lex_field n (d_input st) = Some (b, d_input st') \<and> st' = st\<lparr>d_input := d_input st'\<rparr>"
  by (auto simp: input_read_def Source_read_def lex_field_def split: if_splits)

lemma getAllocationFrameIndex_no_stack:
  "getAllocationFrameIndex P a st = (r, st') \<Longrightarrow> d_stack_traces st t = None \<Longrightarrow>
     d_stack_traces st' t = None"
  by (auto simp: getAllocationFrameIndex_def correctAllocationFrame_def Let_def
      split: option.splits prod.splits sum.splits if_splits)

lemma loop_iteration_no_stack:
  assumes none: "d_stack_traces st t = None"
    and it: "loop_iteration P st = Inl st' \<and> \<not> next_is_push P t st
             \<or> loop_iteration P st = Inr (Inr a, st')"
  shows "d_stack_traces st' t = None"
proof -
  let ?g = "\<lambda>s. d_stack_traces s t"
  obtain x st1 where rd: "input_read (sizeof_RecordType P) st = (x, st1)" by force
  from it have "loop_iteration P st \<noteq> Inr (Inl IoError, st1)" by auto
  with rd obtain ty where x: "x = Inr ty"
    by (cases x) (auto simp: loop_iteration_def input_read_def Source_read_def split: if_splits)
  note rd' = rd [unfolded x]
  from input_read_Inr [OF rd']
  have tag: "lex_field (sizeof_RecordType P) (d_input st) = Some (ty, d_input st1)" by simp
  from input_read_keeps [of ?g, OF _ rd'] none have none1: "d_stack_traces st1 t = None" by simp
  have unfolded: "loop_iteration P st =
      (case decode_RecordType P ty of
         ALLOCATION \<Rightarrow>
           (case parseAllocationRecord P st1 of
              (Inl e, st2) \<Rightarrow> Inr (Inl e, st2)
            | (Inr rec1, st2) \<Rightarrow>
                (case getAllocationFrameIndex P rec1 st2 of
                   (Inl e, st3) \<Rightarrow> Inr (Inl e, st3)
                 | (Inr f_index, st3) \<Rightarrow>
                     Inr (Inr \<lparr>alloc_record = rec1, frame_index = f_index,
                           native_segment_generation =
                             currentSegmentGeneration (d_symbol_resolver st3)\<rparr>, st3)))
       | FRAME \<Rightarrow>
           (case parseFrame P st1 of (Inl e, st2) \<Rightarrow> Inr (Inl e, st2) | (Inr _, st2) \<Rightarrow> Inl st2)
       | FRAME_INDEX \<Rightarrow>
           (case parseFrameIndex P st1 of
              (Inl e, st2) \<Rightarrow> Inr (Inl e, st2) | (Inr _, st2) \<Rightarrow> Inl st2)
       | NATIVE_TRACE_INDEX \<Rightarrow>
           (case parseNativeFrameIndex P st1 of
              (Inl e, st2) \<Rightarrow> Inr (Inl e, st2) | (Inr _, st2) \<Rightarrow> Inl st2)
       | MEMORY_MAP_START \<Rightarrow>
           Inl (st1\<lparr>d_symbol_resolver := clearSegments (d_symbol_resolver st1)\<rparr>)
       | SEGMENT_HEADER \<Rightarrow>
           (case parseSegmentHeader P st1 of
              (Inl e, st2) \<Rightarrow> Inr (Inl e, st2) | (Inr _, st2) \<Rightarrow> Inl st2)
       | _ \<Rightarrow> Inr (Inl (runtime_error ''Invalid record type''), st1))"
    by (simp add: loop_iteration_def rd')
  from it have np: "loop_iteration P st = Inl st' \<Longrightarrow> \<not> next_is_push P t st"
    and cont: "loop_iteration P st = Inl st' \<or> loop_iteration P st = Inr (Inr a, st')"
    by auto
  show ?thesis
  proof (cases "decode_RecordType P ty")
    case ALLOCATION
    with cont obtain rec1 st2 r where "parseAllocationRecord P st1 = (Inr rec1, st2)"
      and g: "getAllocationFrameIndex P rec1 st2 = (r, st')"
      unfolding unfolded by (auto split: prod.splits sum.splits)
    from parseAllocationRecord_keeps [of ?g, OF _ this(1)] none1
    have "d_stack_traces st2 t = None" by simp
    with g show ?thesis by (rule getAllocationFrameIndex_no_stack)
  next
    case FRAME
    with cont have p: "parseFrame P st1 = (Inr (), st')" and it': "loop_iteration P st = Inl st'"
      unfolding unfolded by (auto split: prod.splits sum.splits)
    note np = np [OF it']
    from p obtain b st2 where f: "input_read (sizeof_FrameSeqEntry P) st1 = (Inr b, st2)"
      by (auto simp: parseFrame_def and_then_def split: prod.splits sum.splits)
    from input_read_Inr [OF f]
    have fl: "lex_field (sizeof_FrameSeqEntry P) (d_input st1) = Some (b, d_input st2)" by simp
    let ?e = "decode_FrameSeqEntry P b"
    from fl have pl: "lex_payload P FRAME (d_input st1) = Some (FrameRec ?e, d_input st2)"
      by (simp add: lex_payload_def)
    with tag FRAME have "lex_record P (d_input st) = Some (FrameRec ?e, d_input st2)"
      by (simp add: lex_record_def)
    with np have notpush: "\<not> (FrameSeqEntry.tid ?e = t \<and> action ?e = PUSH)"
      by (simp add: next_is_push_def is_push_def)
    from parseFrame_lex [OF pl] p
    have ap: "apply_FrameSeqEntry P ?e (st1\<lparr>d_input := d_input st2\<rparr>) = (Inr (), st')" by simp
    show ?thesis
    proof (cases "action ?e")
      case PUSH
      with notpush have "FrameSeqEntry.tid ?e \<noteq> t" by simp
      with ap PUSH none1 show ?thesis by (auto simp: apply_FrameSeqEntry_def)
    next
      case POP
      show ?thesis
      proof (cases "FrameSeqEntry.tid ?e = t")
        case True
        with none1 have "stack_of (st1\<lparr>d_input := d_input st2\<rparr>) (FrameSeqEntry.tid ?e) = []"
          by (simp add: stack_of_def)
        with ap POP show ?thesis by (simp add: apply_FrameSeqEntry_def)
      next
        case False
        with ap POP none1 show ?thesis
          by (auto simp: apply_FrameSeqEntry_def split: if_splits)
      qed
    next
      case OTHER_ACTION
      with ap none1 show ?thesis by (auto simp: apply_FrameSeqEntry_def)
    qed
  next
    case FRAME_INDEX
    with cont obtain r where "parseFrameIndex P st1 = (r, st')"
      unfolding unfolded by (auto split: prod.splits sum.splits)
    from parseFrameIndex_keeps [of ?g, OF _ _ this] none1 show ?thesis by simp
  next
    case NATIVE_TRACE_INDEX
    with cont obtain r where "parseNativeFrameIndex P st1 = (r, st')"
      unfolding unfolded by (auto split: prod.splits sum.splits)
    from parseNativeFrameIndex_keeps [of ?g, OF _ _ this] none1 show ?thesis by simp
  next
    case MEMORY_MAP_START
    with cont none1 show ?thesis unfolding unfolded by auto
  next
    case SEGMENT_HEADER
    with cont obtain r where "parseSegmentHeader P st1 = (r, st')"
      unfolding unfolded by (auto split: prod.splits sum.splits)
    from parseSegmentHeader_keeps [of ?g, OF _ _ this] none1 show ?thesis by simp
  next
    case SEGMENT
    with cont show ?thesis unfolding unfolded by auto
  next
    case OTHER_RECORD_TYPE
    with cont show ?thesis unfolding unfolded by auto
  qed
qed

lemma never_pushed_no_stack: "never_pushed P t st \<Longrightarrow> d_stack_traces st t = None"
proof (induction rule: never_pushed.induct)
  case (constructed h src)
  show ?case by (simp add: fresh_reader_def)
next
  case (went_round st st')
  then show ?case using loop_iteration_no_stack [of st t P st'] by blast
next
  case (returned st a st')
  then show ?case using loop_iteration_no_stack [of st t P st' a] by blast
qed

section \<open>A trace cut short\<close>

text \<open>
  What the handlers do when the source ends inside a record. \<open>cut_off st\<close> is the outcome
  of a read that finds the source too short. A handler \<open>p\<close> \<open>reads_like\<close> a lexer \<open>l\<close> when,
  wherever \<open>l\<close> succeeds on the source extended by further bytes, either \<open>l\<close> succeeds on
  the source as it is, leaving those further bytes untouched, and \<open>p\<close> moves the read
  position as \<open>l\<close> does and returns a value that \<open>R\<close> relates to the value of \<open>l\<close>, or \<open>p\<close>
  is cut off. \<open>truncates\<close> is the same without a word on
  what \<open>p\<close> does when it is not cut off.
\<close>

definition cut_off :: "RecordReader \<Rightarrow> (error + 'a) \<times> RecordReader" where
  "cut_off st = (Inl IoError, st\<lparr>d_input := []\<rparr>)"

definition reads_like ::
  "('b \<Rightarrow> 'a \<Rightarrow> bool) \<Rightarrow> (RecordReader \<Rightarrow> (error + 'a) \<times> RecordReader) \<Rightarrow>
   (Source \<Rightarrow> ('b \<times> Source) option) \<Rightarrow> bool" where
  "reads_like R p l \<longleftrightarrow>
     (\<forall>st ext a mid. l (d_input st @ ext) = Some (a, mid) \<longrightarrow>
        (\<exists>mid' a'. mid = mid' @ ext \<and> l (d_input st) = Some (a, mid') \<and> R a a' \<and>
                   p st = (Inr a', st\<lparr>d_input := mid'\<rparr>))
        \<or> p st = cut_off st)"

definition truncates ::
  "(RecordReader \<Rightarrow> (error + 'a) \<times> RecordReader) \<Rightarrow> (Source \<Rightarrow> ('b \<times> Source) option) \<Rightarrow> bool" where
  "truncates p l \<longleftrightarrow>
     (\<forall>st ext a mid. l (d_input st @ ext) = Some (a, mid) \<longrightarrow>
        (\<exists>mid'. mid = mid' @ ext \<and> l (d_input st) = Some (a, mid')) \<or> p st = cut_off st)"

lemma cut_off_input [simp]: "cut_off (st\<lparr>d_input := src\<rparr>) = cut_off st"
  by (simp add: cut_off_def)





lemma truncates_reads_like:
  assumes "reads_like R p l"
  shows "truncates p l"
  using assms unfolding truncates_def reads_like_def by blast

lemma truncates_map:
  assumes "truncates p l"
  shows "truncates p (\<lambda>src. case l src of None \<Rightarrow> None | Some (a, s) \<Rightarrow> Some (g a, s))"
  unfolding truncates_def
proof (intro allI impI)
  fix st :: RecordReader and ext r mid
  assume "(case l (d_input st @ ext) of None \<Rightarrow> None | Some (a, s) \<Rightarrow> Some (g a, s)) = Some (r, mid)"
  then obtain a where "l (d_input st @ ext) = Some (a, mid)" and r: "r = g a"
    by (auto split: option.splits)
  with assms have "(\<exists>mid'. mid = mid' @ ext \<and> l (d_input st) = Some (a, mid')) \<or> p st = cut_off st"
    unfolding truncates_def by blast
  with r show "(\<exists>mid'. mid = mid' @ ext \<and>
        (case l (d_input st) of None \<Rightarrow> None | Some (a, s) \<Rightarrow> Some (g a, s)) = Some (r, mid'))
      \<or> p st = cut_off st"
    by auto
qed








section \<open>The line correction\<close>





text \<open>
  A reader for the examples of the walks: it has read two native frames, the first one
  linked to itself (instruction pointer 9) and the second one linked to the first
  (instruction pointer 8), the frame 2 ("f" in "a"), a push of frame 2 on thread 7 and an
  allocation of thread 7 at line 42.
\<close>

definition walk_example :: RecordReader where
  "walk_example = snd (nextAllocationRecord small_platform (fresh_reader small_header
     [4, 9, 1, 4, 8, 1, 2, 2, 102, 0, 97, 0, 0, 3, 2, 7, 0, 1, 7, 9, 128, 0, 42, 0]))"

lemma walk_example_fields:
  "d_native_frames walk_example = [\<lparr>ip = 9, index = 1\<rparr>, \<lparr>ip = 8, index = 1\<rparr>]"
  "d_tree walk_example
     = [\<lparr>node_frame_id = 0, parent_index = 0\<rparr>, \<lparr>node_frame_id = 1, parent_index = 0\<rparr>]"
  "d_frame_map walk_example (Suc 0)
     = Some \<lparr>function_name = [102], filename = [97], parent_lineno = 0, lineno = 42\<rparr>"
  "segments_of (d_symbol_resolver walk_example) 0 = []"
  by (simp_all add: walk_example_def nextAllocationRecord_def nextAllocationRecord_loop.simps
      input_read_def input_getline_def Source_read_def Source_getline_def small_platform_def
      fresh_reader_def sizeof_RecordType_def small_RecordType_def parseFrame_def
      parseFrameIndex_def parseNativeFrameIndex_def parseAllocationRecord_def and_then_def
      return_value_def small_FrameSeqEntry_def small_UnresolvedNativeFrame_def
      small_AllocationRecord_def stack_of_def getAllocationFrameIndex_def
      correctAllocationFrame_def getIndex_def FrameCollection_init_def getTraceIndex_def
      getTraceIndex_child_def FrameTree_init_def SymbolResolver_init_def Let_def)

text \<open>
  A trace for the small platform: a new memory map, the module "m" at base address 10
  with the segment (4, 5), a native frame (instruction pointer 9, no caller), the frame 2
  ("f" in "a"), a push of frame 2 on thread 7, allocations of thread 7 at lines 42 and
  43, a pop on thread 7 and an allocation of thread 8 at line 5.
\<close>

definition example_records :: "trace_record list" where
  "example_records =
     [MemoryMapStartRec,
      SegmentHeaderRec [109] 10 [\<lparr>vaddr = 4, memsz = 5\<rparr>],
      NativeTraceIndexRec \<lparr>ip = 9, index = 0\<rparr>,
      FrameIndexRec 2 [102] [97] 0,
      FrameRec \<lparr>frame_id = 2, tid = 7, action = PUSH\<rparr>,
      AllocationRec \<lparr>tid = 7, address = 9, size = 128, allocator = 0, py_lineno = 42,
                     native_frame_id = 0\<rparr>,
      AllocationRec \<lparr>tid = 7, address = 10, size = 64, allocator = 0, py_lineno = 43,
                     native_frame_id = 0\<rparr>,
      FrameRec \<lparr>frame_id = 2, tid = 7, action = POP\<rparr>,
      AllocationRec \<lparr>tid = 8, address = 11, size = 32, allocator = 0, py_lineno = 5,
                     native_frame_id = 0\<rparr>]"

definition example_bytes :: "byte list" where
  "example_bytes =
     [5,
      6, 109, 0, 1, 10, 7, 4, 5,
      4, 9, 0,
      2, 2, 102, 0, 97, 0, 0,
      3, 2, 7, 0,
      1, 7, 9, 128, 0, 42, 0,
      1, 7, 10, 64, 0, 43, 0,
      3, 2, 7, 1,
      1, 8, 11, 32, 0, 5, 0]"



section \<open>Claims\<close>

subsection \<open>Allocations in the order of the stream\<close>

text \<open>
  C1. A trace is well formed when, after its header, its bytes are a sequence of whole
  records (\<open>holds_trace\<close>) that is well formed from no defined frame and empty stacks
  (\<open>well_formed\<close>). Calling \<^verbatim>\<open>nextAllocationRecord\<close> again and again on the reader
  constructed on such a trace returns the ALLOCATION records of the trace, each once and
  in the order of the trace, and then \<^verbatim>\<open>false\<close> and no exception; the source is then
  exhausted, and a further call returns \<^verbatim>\<open>false\<close> again.
\<close>

theorem allocations_in_stream_order:
  assumes "RecordReader_new P trace = Inr st"
    and "holds_trace P (d_input st) rs"
    and "well_formed P {} (\<lambda>_. 0) rs"
  shows "map alloc_record (fst (decode_all P st)) = allocation_records rs
         \<and> fst (snd (decode_all P st)) = None
         \<and> d_input (snd (snd (decode_all P st))) = []
         \<and> fst (nextAllocationRecord P (snd (snd (decode_all P st)))) = Inr None"
proof -
  from assms(1) obtain h src where st: "st = fresh_reader h src"
    by (auto simp: RecordReader_new_def split: prod.splits sum.splits)
  have ok: "reader_ok P {} (\<lambda>_. 0) st" unfolding st by (rule reader_ok_fresh)
  from decode_all_well_formed [OF ok assms(2,3)]
  have 1: "map alloc_record (fst (decode_all P st)) = allocation_records rs"
    and 2: "fst (snd (decode_all P st)) = None"
    and 3: "d_input (snd (snd (decode_all P st))) = []" by simp_all
  from 3 have "length (d_input (snd (snd (decode_all P st)))) < sizeof_RecordType P"
    by (simp add: sizeof_RecordType_def)
  from nextAllocationRecord_exhausted [OF this] 1 2 3 show ?thesis by simp
qed

theorem allocations_in_stream_order_witness:
  "RecordReader_new small_platform ([80, 69, 78, 83, 73, 69, 86, 69, 1, 0, 0, 0, 0] @ example_bytes)
     = Inr (fresh_reader small_header example_bytes)
   \<and> holds_trace small_platform (d_input (fresh_reader small_header example_bytes)) example_records
   \<and> well_formed small_platform {} (\<lambda>_. 0) example_records
   \<and> map alloc_record (fst (decode_all small_platform (fresh_reader small_header example_bytes)))
       = [\<lparr>tid = 7, address = 9, size = 128, allocator = 0, py_lineno = 42, native_frame_id = 0\<rparr>,
          \<lparr>tid = 7, address = 10, size = 64, allocator = 0, py_lineno = 43, native_frame_id = 0\<rparr>,
          \<lparr>tid = 8, address = 11, size = 32, allocator = 0, py_lineno = 5, native_frame_id = 0\<rparr>]
   \<and> fst (snd (decode_all small_platform (fresh_reader small_header example_bytes))) = None"
proof -
  have new: "RecordReader_new small_platform
       ([80, 69, 78, 83, 73, 69, 86, 69, 1, 0, 0, 0, 0] @ example_bytes)
     = Inr (fresh_reader small_header example_bytes)"
    by (simp add: RecordReader_new_def readHeader_def and_then_def Source_read_def
        Source_getline_def raise_def return_value_def small_platform_def sizeof_MAGIC_def
        small_header_def example_bytes_def)
  have holds: "holds_trace small_platform (d_input (fresh_reader small_header example_bytes))
      example_records"
    by (simp add: example_records_def example_bytes_def fresh_reader_def lex_record_def
        lex_payload_def lex_field_def lex_string_def small_platform_def sizeof_RecordType_def
        small_RecordType_def small_FrameSeqEntry_def small_AllocationRecord_def
        small_UnresolvedNativeFrame_def small_Segment_def)
  have odd: "2 \<notin> range (new_frame_id small_platform)"
  proof
    assume "2 \<in> range (new_frame_id small_platform)"
    then obtain n :: nat where "2 = 2 * n + 1" by (auto simp: small_platform_def)
    then show False by presburger
  qed
  have wf: "well_formed small_platform {} (\<lambda>_. 0) example_records"
    using odd by (simp add: example_records_def)
  from allocations_in_stream_order [OF new holds wf] new holds wf show ?thesis
    by (simp add: example_records_def)
qed

subsection \<open>The line correction persists\<close>




subsection \<open>A pop on an empty stack\<close>

text \<open>
  C3. The claim: a POP for a thread whose stack is empty fails with a ProtocolError that
  reaches the caller of \<^verbatim>\<open>nextAllocationRecord\<close>. The code: \<^verbatim>\<open>parseFrame\<close> guards the pop
  with \<^verbatim>\<open>assert\<close> only. On the trace that holds the single record FRAME (frame 2, thread 7,
  POP), the call ends in a failed assertion when assertions are compiled in and in
  \<^verbatim>\<open>pop_back\<close> on an empty vector under \<^verbatim>\<open>NDEBUG\<close>; in neither build is a
  \<^verbatim>\<open>std::runtime_error\<close> thrown, as it is for a duplicate frame identifier or an unknown
  record type.
\<close>

theorem pop_on_empty_stack_is_no_runtime_error:
  "fst (nextAllocationRecord small_platform (fresh_reader small_header [3, 2, 7, 1]))
     = Inl AssertionFailure
   \<and> fst (nextAllocationRecord (small_platform\<lparr>ndebug := True\<rparr>)
            (fresh_reader small_header [3, 2, 7, 1]))
     = Inl UndefinedBehaviour"
  by (simp add: nextAllocationRecord_def nextAllocationRecord_loop.simps input_read_def
      Source_read_def small_platform_def fresh_reader_def sizeof_RecordType_def
      small_RecordType_def parseFrame_def and_then_def small_FrameSeqEntry_def stack_of_def)

subsection \<open>The segments of a module\<close>

text \<open>
  C4. The claim: a SEGMENT\_HEADER that announces \<open>n\<close> segments registers exactly the \<open>n\<close>
  parsed segments, with no value-initialised placeholder. The code: the vector is built
  with \<open>n\<close> value-initialised elements and the parsed segments are appended to it. On the
  trace that holds one SEGMENT\_HEADER (module "m", one segment, base address 10) and its
  SEGMENT (4, 5), the module is registered with two segments, the first one a
  placeholder.
\<close>

theorem segment_header_registers_placeholders:
  "segments_of (d_symbol_resolver (snd (nextAllocationRecord small_platform
       (fresh_reader small_header [6, 109, 0, 1, 10, 7, 4, 5])))) 0
     = [\<lparr>module_filename = [109], module_addr = 10,
         module_segments = [Segment_default, \<lparr>vaddr = 4, memsz = 5\<rparr>]\<rparr>]"
  by (simp add: nextAllocationRecord_def nextAllocationRecord_loop.simps input_read_def
      input_getline_def Source_read_def Source_getline_def small_platform_def fresh_reader_def
      sizeof_RecordType_def small_RecordType_def parseSegmentHeader_def parseSegment_def
      and_then_def return_value_def small_Segment_def addSegments_def SymbolResolver_init_def
      Let_def)

subsection \<open>A frame identifier defined twice\<close>

text \<open>
  C5. When the next record of the stream is a whole FRAME\_INDEX record whose frame
  identifier the frame table holds already, whatever the frame it carries,
  \<^verbatim>\<open>nextAllocationRecord\<close> throws \<^verbatim>\<open>std::runtime_error\<close> ("Two entries with the same ID
  found!"); the handler for \<^verbatim>\<open>IoError\<close> does not catch it, so the outcome is not the
  \<^verbatim>\<open>false\<close> of an exhausted stream.
\<close>

theorem duplicate_frame_id_ProtocolError:
  assumes "lex_record P (d_input st) = Some (FrameIndexRec k fn fname l, rest)"
    and "k \<in> dom (d_frame_map st)"
  shows "nextAllocationRecord P st =
           (Inl (runtime_error ''Two entries with the same ID found!''), st\<lparr>d_input := rest\<rparr>)
         \<and> fst (nextAllocationRecord P st) \<noteq> Inr None"
proof -
  from assms(1) obtain t s where t: "lex_field (sizeof_RecordType P) (d_input st) = Some (t, s)"
    and p: "lex_payload P (decode_RecordType P t) s = Some (FrameIndexRec k fn fname l, rest)"
    by (auto simp: lex_record_def split: option.splits)
  from p have ty: "decode_RecordType P t = FRAME_INDEX"
    by (cases "decode_RecordType P t") (auto simp: lex_payload_def split: option.splits)
  from assms(2) obtain f where f: "d_frame_map st k = Some f" by auto
  have "parseFrameIndex P (st\<lparr>d_input := s\<rparr>) =
      (Inl (runtime_error ''Two entries with the same ID found!''), st\<lparr>d_input := rest\<rparr>)"
    using parseFrameIndex_lex [of P "st\<lparr>d_input := s\<rparr>" k fn fname l rest] p ty f by simp
  then have "nextAllocationRecord_loop P st =
      (Inl (runtime_error ''Two entries with the same ID found!''), st\<lparr>d_input := rest\<rparr>)"
    using input_read_lex [OF t] ty by (subst nextAllocationRecord_loop.simps) simp
  then show ?thesis by (simp add: nextAllocationRecord_def)
qed

theorem duplicate_frame_id_ProtocolError_witness:
  "lex_record small_platform
       (d_input ((fresh_reader small_header [2, 2, 103, 0, 98, 0, 5])
          \<lparr>d_frame_map := [2 \<mapsto> \<lparr>function_name = [102], filename = [97], parent_lineno = 0,
                                  lineno = 0\<rparr>]\<rparr>))
     = Some (FrameIndexRec 2 [103] [98] 5, [])
   \<and> 2 \<in> dom (d_frame_map ((fresh_reader small_header [2, 2, 103, 0, 98, 0, 5])
          \<lparr>d_frame_map := [2 \<mapsto> \<lparr>function_name = [102], filename = [97], parent_lineno = 0,
                                  lineno = 0\<rparr>]\<rparr>))
   \<and> fst (nextAllocationRecord small_platform
       ((fresh_reader small_header [2, 2, 103, 0, 98, 0, 5])
          \<lparr>d_frame_map := [2 \<mapsto> \<lparr>function_name = [102], filename = [97], parent_lineno = 0,
                                  lineno = 0\<rparr>]\<rparr>))
     = Inl (runtime_error ''Two entries with the same ID found!'')"
proof -
  let ?st = "(fresh_reader small_header [2, 2, 103, 0, 98, 0, 5])
          \<lparr>d_frame_map := [2 \<mapsto> \<lparr>function_name = [102], filename = [97], parent_lineno = 0,
                                  lineno = 0\<rparr>]\<rparr>"
  have l: "lex_record small_platform (d_input ?st) = Some (FrameIndexRec 2 [103] [98] 5, [])"
    by (simp add: lex_record_def lex_payload_def lex_field_def lex_string_def small_platform_def
        fresh_reader_def sizeof_RecordType_def small_RecordType_def)
  have d: "2 \<in> dom (d_frame_map ?st)" by simp
  from duplicate_frame_id_ProtocolError [OF l d] l d show ?thesis by simp
qed

subsection \<open>The header\<close>

text \<open>
  C6. The constructor fails with \<^verbatim>\<open>std::ios_base::failure\<close> exactly when the source holds the
  bytes of the magic and they differ from \<^verbatim>\<open>MAGIC\<close>, or holds the magic and the bytes of
  the version and the version differs from \<^verbatim>\<open>CURRENT_HEADER_VERSION\<close> (a source that ends
  before that fails with \<open>IoError\<close> instead). At the failure nothing but the magic, or the
  magic and the version, has been read. After a successful construction the header is
  the one that was read, with the supported magic and version, and \<^verbatim>\<open>getHeader\<close> returns
  it after any number of calls of \<^verbatim>\<open>nextAllocationRecord\<close>; \<^verbatim>\<open>getHeader\<close> reads the member
  and not the source.
\<close>

theorem header_validation:
  "((\<exists>msg src'. RecordReader_new P src = Inl (ios_base_failure msg, src')) \<longleftrightarrow>
      (sizeof_MAGIC P \<le> length src \<and> take (sizeof_MAGIC P) src \<noteq> MAGIC P) \<or>
      (sizeof_MAGIC P + sizeof_version P \<le> length src \<and> take (sizeof_MAGIC P) src = MAGIC P \<and>
       decode_version P (take (sizeof_version P) (drop (sizeof_MAGIC P) src))
         \<noteq> CURRENT_HEADER_VERSION P))
   \<and> (\<forall>msg src'. RecordReader_new P src = Inl (ios_base_failure msg, src') \<longrightarrow>
         src' = drop (sizeof_MAGIC P) src \<or> src' = drop (sizeof_MAGIC P + sizeof_version P) src)
   \<and> (\<forall>st n. RecordReader_new P src = Inr st \<longrightarrow>
         readHeader P src = (Inr (getHeader st), d_input st) \<and>
         magic (getHeader st) = MAGIC P \<and>
         version (getHeader st) = CURRENT_HEADER_VERSION P \<and>
         getHeader (((\<lambda>s. snd (nextAllocationRecord P s)) ^^ n) st) = getHeader st)"
proof -
  have new_fail: "RecordReader_new P src = Inl (ios_base_failure msg, src') \<longleftrightarrow>
      readHeader P src = (Inl (ios_base_failure msg), src')" for msg src'
    by (auto simp: RecordReader_new_def split: prod.splits sum.splits)
  have 1: "(\<exists>msg src'. RecordReader_new P src = Inl (ios_base_failure msg, src')) \<longleftrightarrow>
      (sizeof_MAGIC P \<le> length src \<and> take (sizeof_MAGIC P) src \<noteq> MAGIC P) \<or>
      (sizeof_MAGIC P + sizeof_version P \<le> length src \<and> take (sizeof_MAGIC P) src = MAGIC P \<and>
       decode_version P (take (sizeof_version P) (drop (sizeof_MAGIC P) src))
         \<noteq> CURRENT_HEADER_VERSION P)"
    unfolding new_fail readHeader_failure by blast
  have 2: "\<forall>msg src'. RecordReader_new P src = Inl (ios_base_failure msg, src') \<longrightarrow>
         src' = drop (sizeof_MAGIC P) src \<or> src' = drop (sizeof_MAGIC P + sizeof_version P) src"
    unfolding new_fail readHeader_failure by blast
  have 3: "readHeader P src = (Inr (getHeader st), d_input st) \<and>
         magic (getHeader st) = MAGIC P \<and>
         version (getHeader st) = CURRENT_HEADER_VERSION P \<and>
         getHeader (((\<lambda>s. snd (nextAllocationRecord P s)) ^^ n) st) = getHeader st"
    if new: "RecordReader_new P src = Inr st" for st n
  proof -
    from new obtain h s where rh: "readHeader P src = (Inr h, s)" and st: "st = fresh_reader h s"
      by (auto simp: RecordReader_new_def split: prod.splits sum.splits)
    from rh st readHeader_success [OF rh] show ?thesis
      by (simp add: getHeader_def fresh_reader_def nextAllocationRecord_funpow_header)
  qed
  from 1 2 3 show ?thesis by blast
qed

theorem header_validation_witness:
  "RecordReader_new small_platform [80, 69, 78, 83, 73, 69, 86, 70, 1, 0, 0, 0, 0]
     = Inl (ios_base_failure
         ''The provided input file does not look like a binary generated by pensieve.'',
         [1, 0, 0, 0, 0])
   \<and> RecordReader_new small_platform [80, 69, 78, 83, 73, 69, 86, 69, 2, 0, 0, 0, 0]
     = Inl (ios_base_failure
         ''The provided input file is incompatible with this version of pensieve.'',
         [0, 0, 0, 0])
   \<and> RecordReader_new small_platform
        [80, 69, 78, 83, 73, 69, 86, 69, 1, 0, 0, 0, 0, 5, 1, 7, 9, 128, 0, 42, 0]
     = Inr (fresh_reader small_header [5, 1, 7, 9, 128, 0, 42, 0])
   \<and> getHeader (((\<lambda>s. snd (nextAllocationRecord small_platform s)) ^^ 2)
        (fresh_reader small_header [5, 1, 7, 9, 128, 0, 42, 0])) = small_header"
proof -
  have a: "RecordReader_new small_platform [80, 69, 78, 83, 73, 69, 86, 70, 1, 0, 0, 0, 0]
     = Inl (ios_base_failure
         ''The provided input file does not look like a binary generated by pensieve.'',
         [1, 0, 0, 0, 0])"
    by (simp add: RecordReader_new_def readHeader_def and_then_def Source_read_def raise_def
        small_platform_def sizeof_MAGIC_def)
  have b: "RecordReader_new small_platform [80, 69, 78, 83, 73, 69, 86, 69, 2, 0, 0, 0, 0]
     = Inl (ios_base_failure
         ''The provided input file is incompatible with this version of pensieve.'',
         [0, 0, 0, 0])"
    by (simp add: RecordReader_new_def readHeader_def and_then_def Source_read_def raise_def
        small_platform_def sizeof_MAGIC_def)
  have c: "RecordReader_new small_platform
        [80, 69, 78, 83, 73, 69, 86, 69, 1, 0, 0, 0, 0, 5, 1, 7, 9, 128, 0, 42, 0]
     = Inr (fresh_reader small_header [5, 1, 7, 9, 128, 0, 42, 0])"
    by (simp add: RecordReader_new_def readHeader_def and_then_def Source_read_def
        Source_getline_def raise_def return_value_def small_platform_def sizeof_MAGIC_def
        small_header_def)
  have d: "getHeader (fresh_reader small_header [5, 1, 7, 9, 128, 0, 42, 0]) = small_header"
    by (simp add: getHeader_def fresh_reader_def)
  from header_validation [of small_platform
      "[80, 69, 78, 83, 73, 69, 86, 69, 1, 0, 0, 0, 0, 5, 1, 7, 9, 128, 0, 42, 0]"] c d
  have "getHeader (((\<lambda>s. snd (nextAllocationRecord small_platform s)) ^^ 2)
        (fresh_reader small_header [5, 1, 7, 9, 128, 0, 42, 0])) = small_header"
    by metis
  with a b c show ?thesis by simp
qed

subsection \<open>An allocation of a thread without a stack\<close>

text \<open>
  C7. A thread never received a push when the reader has, since its construction, read no
  FRAME record with action \<^verbatim>\<open>PUSH\<close> for it (\<open>never_pushed\<close>). When the next record is a
  whole ALLOCATION record for such a thread, \<^verbatim>\<open>nextAllocationRecord\<close> returns the record with
  frame index 0 and, the read position apart, leaves the reader as it was: no frame is
  looked up, no identifier minted, no stack and no tree node written. \<^verbatim>\<open>Py_GetStackFrame\<close>
  at index 0 returns the empty list for every reader and every depth bound.
\<close>

theorem allocation_without_push_has_index_0:
  assumes "never_pushed P (AllocationRecord.tid a) st"
    and "lex_record P (d_input st) = Some (AllocationRec a, rest)"
  shows "nextAllocationRecord P st =
           (Inr (Some \<lparr>alloc_record = a, frame_index = 0,
                       native_segment_generation =
                         currentSegmentGeneration (d_symbol_resolver st)\<rparr>),
            st\<lparr>d_input := rest\<rparr>)
         \<and> Py_GetStackFrame toPy st' 0 max_stacks = Inr []"
proof -
  from assms(1) have none: "d_stack_traces st (AllocationRecord.tid a) = None"
    by (rule never_pushed_no_stack)
  from assms(2) obtain t s where t: "lex_field (sizeof_RecordType P) (d_input st) = Some (t, s)"
    and p: "lex_payload P (decode_RecordType P t) s = Some (AllocationRec a, rest)"
    by (rule lex_record_tag)
  from p have ty: "decode_RecordType P t = ALLOCATION" by (rule lex_payload_AllocationRec)
  have parse: "parseAllocationRecord P (st\<lparr>d_input := s\<rparr>) = (Inr a, st\<lparr>d_input := rest\<rparr>)"
    using parseAllocationRecord_lex [of P "st\<lparr>d_input := s\<rparr>" a rest] p ty by simp
  have idx: "getAllocationFrameIndex P a (st\<lparr>d_input := rest\<rparr>) = (Inr 0, st\<lparr>d_input := rest\<rparr>)"
    using none by (simp add: getAllocationFrameIndex_def)
  have "loop_iteration P st =
      Inr (Inr \<lparr>alloc_record = a, frame_index = 0,
                native_segment_generation = currentSegmentGeneration (d_symbol_resolver st)\<rparr>,
           st\<lparr>d_input := rest\<rparr>)"
    using input_read_lex [OF t] ty parse idx by (simp add: loop_iteration_def)
  then show ?thesis
    by (simp add: nextAllocationRecord_def loop_unfold [of P st] Py_GetStackFrame_root)
qed

theorem allocation_without_push_has_index_0_witness:
  "never_pushed small_platform 7
     ((fresh_reader small_header [1, 7, 9, 128, 0, 42, 0])\<lparr>d_stack_traces := [8 \<mapsto> [2]]\<rparr>)
   \<and> lex_record small_platform [1, 7, 9, 128, 0, 42, 0]
     = Some (AllocationRec \<lparr>tid = 7, address = 9, size = 128, allocator = 0, py_lineno = 42,
                            native_frame_id = 0\<rparr>, [])
   \<and> nextAllocationRecord small_platform
       ((fresh_reader small_header [1, 7, 9, 128, 0, 42, 0])\<lparr>d_stack_traces := [8 \<mapsto> [2]]\<rparr>)
     = (Inr (Some \<lparr>alloc_record = \<lparr>tid = 7, address = 9, size = 128, allocator = 0,
                                    py_lineno = 42, native_frame_id = 0\<rparr>,
                   frame_index = 0, native_segment_generation = 0\<rparr>),
        (fresh_reader small_header [])\<lparr>d_stack_traces := [8 \<mapsto> [2]]\<rparr>)
   \<and> Py_GetStackFrame (\<lambda>f l. Some (f, l)) (fresh_reader small_header []) 0 (5 :: 64 word) = Inr []"
proof -
  let ?start = "fresh_reader small_header [3, 2, 8, 0, 1, 7, 9, 128, 0, 42, 0]"
  let ?later = "(fresh_reader small_header [1, 7, 9, 128, 0, 42, 0])\<lparr>d_stack_traces := [8 \<mapsto> [2]]\<rparr>"
  let ?a = "\<lparr>tid = 7, address = 9, size = 128, allocator = 0, py_lineno = 42,
             native_frame_id = 0\<rparr>"
  have i: "loop_iteration small_platform ?start = Inl ?later"
    by (simp add: loop_iteration_def input_read_def Source_read_def small_platform_def
        fresh_reader_def sizeof_RecordType_def small_RecordType_def parseFrame_def and_then_def
        small_FrameSeqEntry_def stack_of_def)
  have n: "\<not> next_is_push small_platform 7 ?start"
    by (simp add: next_is_push_def is_push_def lex_record_def lex_payload_def lex_field_def
        small_platform_def fresh_reader_def sizeof_RecordType_def small_RecordType_def
        small_FrameSeqEntry_def)
  have np: "never_pushed small_platform (AllocationRecord.tid ?a) ?later"
    using never_pushed.went_round [OF never_pushed.constructed i n] by simp
  have l: "lex_record small_platform [1, 7, 9, 128, 0, 42, 0] = Some (AllocationRec ?a, [])"
    by (simp add: lex_record_def lex_payload_def lex_field_def small_platform_def
        sizeof_RecordType_def small_RecordType_def small_AllocationRecord_def)
  then have l': "lex_record small_platform (d_input ?later) = Some (AllocationRec ?a, [])"
    by (simp add: fresh_reader_def)
  have g: "currentSegmentGeneration (d_symbol_resolver ?later) = 0"
    by (simp add: fresh_reader_def currentSegmentGeneration_def SymbolResolver_init_def)
  have s: "?later\<lparr>d_input := []\<rparr> = (fresh_reader small_header [])\<lparr>d_stack_traces := [8 \<mapsto> [2]]\<rparr>"
    by (simp add: fresh_reader_def)
  from allocation_without_push_has_index_0 [OF np l', of "\<lambda>f l. Some (f, l)"
      "fresh_reader small_header []" "5 :: 64 word"] np l g s
  show ?thesis by simp
qed

subsection \<open>The depth bound of the walks\<close>




subsection \<open>The end of the input\<close>



subsection \<open>Unresolved links of a native chain\<close>

text \<open>
  C10. The list \<^verbatim>\<open>Py_GetNativeStackFrame\<close> returns is the concatenation, over the links the
  walk visits, of what the resolver gives for each link: nothing for a link whose
  instruction pointer the resolver does not resolve, every inlined frame for one it
  does. The links visited are those \<open>follow\<close> gives for the depth bound, resolved or not,
  so an unresolved link uses up depth and adds no entry.
\<close>

theorem unresolved_links_count_against_depth:
  assumes "Py_GetNativeStackFrame lookup toPy st idx gen max_stacks = Inr out"
  shows "map Some out =
           concat (map (\<lambda>j. case resolve lookup (d_symbol_resolver st)
                                   (ip (d_native_frames st ! (j - 1))) gen of
                               None \<Rightarrow> []
                             | Some resolved_frames \<Rightarrow> map toPy resolved_frames)
                     (follow (chain_next st) (unat max_stacks) idx))
         \<and> length (follow (chain_next st) (unat max_stacks) idx) \<le> unat max_stacks"
proof -
  have eq: "(\<lambda>j. map toPy (resolved_at lookup st gen j))
      = (\<lambda>j. case resolve lookup (d_symbol_resolver st) (ip (d_native_frames st ! (j - 1))) gen of
                None \<Rightarrow> []
              | Some resolved_frames \<Rightarrow> map toPy resolved_frames)"
    by (auto simp: resolved_at_def fun_eq_iff split: option.splits)
  from assms Py_GetNativeStackFrame_loop_follows [of lookup toPy st gen max_stacks idx 0 "[]" out]
  have "map Some out = concat (map (\<lambda>j. map toPy (resolved_at lookup st gen j))
           (follow (chain_next st) (unat max_stacks) idx))"
    by (simp add: Py_GetNativeStackFrame_def)
  then show ?thesis unfolding eq by (simp add: follow_length)
qed

theorem unresolved_links_count_against_depth_witness:
  "Py_GetNativeStackFrame (\<lambda>modules pc. if pc = 9 then Some [90, 91 :: nat] else None) Some
       walk_example 2 0 (1 :: 64 word) = Inr []
   \<and> Py_GetNativeStackFrame (\<lambda>modules pc. if pc = 9 then Some [90, 91 :: nat] else None) Some
       walk_example 2 0 (2 :: 64 word) = Inr [90, 91]
   \<and> follow (chain_next walk_example) 1 2 = [2]
   \<and> follow (chain_next walk_example) 2 2 = [2, 1]
   \<and> length (follow (chain_next walk_example) (unat (2 :: 64 word)) 2) \<le> unat (2 :: 64 word)
   \<and> map Some [90, 91] =
       concat (map (\<lambda>j. case resolve (\<lambda>modules pc. if pc = 9 then Some [90, 91 :: nat] else None)
                                 (d_symbol_resolver walk_example)
                                 (ip (d_native_frames walk_example ! (j - 1))) 0 of
                             None \<Rightarrow> []
                           | Some resolved_frames \<Rightarrow> map Some resolved_frames)
                 (follow (chain_next walk_example) (unat (2 :: 64 word)) 2))"
proof -
  let ?lk = "\<lambda>modules pc. if pc = 9 then Some [90, 91 :: nat] else (None :: nat list option)"
  have a: "Py_GetNativeStackFrame ?lk Some walk_example 2 0 (1 :: 64 word) = Inr []"
    by (simp add: Py_GetNativeStackFrame_def Py_GetNativeStackFrame_loop.simps resolve_def
        walk_example_fields)
  have b: "Py_GetNativeStackFrame ?lk Some walk_example 2 0 (2 :: 64 word) = Inr [90, 91]"
    by (simp add: Py_GetNativeStackFrame_def Py_GetNativeStackFrame_loop.simps resolve_def
        walk_example_fields)
  have c: "follow (chain_next walk_example) 1 2 = [2]"
    "follow (chain_next walk_example) 2 2 = [2, 1]"
    by (simp_all add: eval_nat_numeral chain_next_def walk_example_fields)
  from unresolved_links_count_against_depth [OF b] a b c show ?thesis by simp
qed

end
